theory Spec2Isabelle
  imports Complex_Main "HOL-Library.AList" "HOL-Library.List_Lexorder" "HOL-Library.Char_ord"
begin

section \<open>Time values and calendar dates\<close>

text \<open>
  Both variants of the bot turn an instant into calendar keys.  The worker (Cloudflare
  Workers, \<^verbatim>\<open>src/src/worker.js\<close>) does it with the JavaScript \<^verbatim>\<open>Date\<close> getters
  \<^verbatim>\<open>getUTCFullYear\<close>, \<^verbatim>\<open>getUTCMonth\<close>, \<^verbatim>\<open>getUTCDate\<close>, \<^verbatim>\<open>getUTCDay\<close> and with
  \<^verbatim>\<open>Date.UTC\<close>; the SQLite variant (\<^verbatim>\<open>src/db.js\<close>) does it with dayjs.  These are library
  functions, modelled here after the ECMAScript definitions of \<open>Day\<close>, \<open>WeekDay\<close>,
  \<open>DayFromYear\<close>, \<open>YearFromTime\<close>, \<open>MonthFromTime\<close>, \<open>DateFromTime\<close> and \<open>MakeDay\<close>.
  Instants are integers (milliseconds for the worker, seconds for \<^verbatim>\<open>db.js\<close>); all the
  numbers involved are far below \<open>2^53\<close>, where JavaScript arithmetic on them is exact.
  A time value is assumed to lie in the range where a \<^verbatim>\<open>Date\<close> is valid.
\<close>

definition msPerDay :: int where
  "msPerDay = 86400000"

definition Day :: "int \<Rightarrow> int" where
  "Day t = t div msPerDay"

definition WeekDay :: "int \<Rightarrow> int" where
  "WeekDay t = (Day t + 4) mod 7"

definition DaysInYear :: "int \<Rightarrow> int" where
  "DaysInYear y =
     (if y mod 4 \<noteq> 0 then 365
      else if y mod 100 \<noteq> 0 then 366
      else if y mod 400 \<noteq> 0 then 365
      else 366)"

definition DayFromYear :: "int \<Rightarrow> int" where
  "DayFromYear y =
     365 * (y - 1970) + (y - 1969) div 4 - (y - 1901) div 100 + (y - 1601) div 400"

text \<open>
  ECMAScript: \<open>YearFromTime(t)\<close> is the largest \<open>y\<close> with \<open>DayFromYear(y) \<le> Day(t)\<close>.
  It is computed from an estimate that is off by at most one year
  (lemma \<open>YearFromDay_spec\<close> below shows that the result is that year).
\<close>

definition YearFromDay :: "int \<Rightarrow> int" where
  "YearFromDay d =
     (let y0 = 1970 + (400 * d) div 146097
      in if d < DayFromYear y0 then y0 - 1
         else if DayFromYear (y0 + 1) \<le> d then y0 + 1
         else y0)"

definition InLeapYear :: "int \<Rightarrow> int" where
  "InLeapYear y = (if DaysInYear y = 366 then 1 else 0)"

text \<open>The day within the year on which month \<open>m\<close> (0 = January) begins.\<close>

definition monthStart :: "int \<Rightarrow> int \<Rightarrow> int" where
  "monthStart m leap =
     (if m = 0 then 0
      else if m = 1 then 31
      else if m = 2 then 59 + leap
      else if m = 3 then 90 + leap
      else if m = 4 then 120 + leap
      else if m = 5 then 151 + leap
      else if m = 6 then 181 + leap
      else if m = 7 then 212 + leap
      else if m = 8 then 243 + leap
      else if m = 9 then 273 + leap
      else if m = 10 then 304 + leap
      else 334 + leap)"

definition DayWithinYear :: "int \<Rightarrow> int" where
  "DayWithinYear d = d - DayFromYear (YearFromDay d)"

definition MonthFromDay :: "int \<Rightarrow> int" where
  "MonthFromDay d =
     (let dwy = DayWithinYear d; leap = InLeapYear (YearFromDay d)
      in if dwy < 31 then 0
         else if dwy < 59 + leap then 1
         else if dwy < 90 + leap then 2
         else if dwy < 120 + leap then 3
         else if dwy < 151 + leap then 4
         else if dwy < 181 + leap then 5
         else if dwy < 212 + leap then 6
         else if dwy < 243 + leap then 7
         else if dwy < 273 + leap then 8
         else if dwy < 304 + leap then 9
         else if dwy < 334 + leap then 10
         else 11)"

definition DateFromDay :: "int \<Rightarrow> int" where
  "DateFromDay d =
     DayWithinYear d - monthStart (MonthFromDay d) (InLeapYear (YearFromDay d)) + 1"

text \<open>The getters of a \<^verbatim>\<open>Date\<close> object with time value \<open>t\<close> (milliseconds).\<close>

definition getUTCFullYear :: "int \<Rightarrow> int" where
  "getUTCFullYear t = YearFromDay (Day t)"

definition getUTCMonth :: "int \<Rightarrow> int" where
  "getUTCMonth t = MonthFromDay (Day t)"

definition getUTCDate :: "int \<Rightarrow> int" where
  "getUTCDate t = DateFromDay (Day t)"

definition getUTCDay :: "int \<Rightarrow> int" where
  "getUTCDay t = WeekDay t"

definition getUTCHours :: "int \<Rightarrow> int" where
  "getUTCHours t = (t div 3600000) mod 24"

definition getUTCMinutes :: "int \<Rightarrow> int" where
  "getUTCMinutes t = (t div 60000) mod 60"

text \<open>
  \<^verbatim>\<open>MakeDay(year, month, date)\<close> and \<^verbatim>\<open>Date.UTC(year, month, date)\<close>.  \<^verbatim>\<open>Date.UTC\<close>
  reads a year between 0 and 99 as a year of the twentieth century.
\<close>

definition MakeDay :: "int \<Rightarrow> int \<Rightarrow> int \<Rightarrow> int" where
  "MakeDay year month date =
     (let ym = year + month div 12; mn = month mod 12
      in DayFromYear ym + monthStart mn (InLeapYear ym) + date - 1)"

definition DateUTC :: "int \<Rightarrow> int \<Rightarrow> int \<Rightarrow> int" where
  "DateUTC year month date =
     (let yr = (if 0 \<le> year \<and> year \<le> 99 then 1900 + year else year)
      in MakeDay yr month date * msPerDay)"

text \<open>
  A calendar key \<^verbatim>\<open>YYYY-MM-DD\<close> is kept as its three numbers (year, month 1..12, day);
  the string is their rendering with \<^verbatim>\<open>padStart(2, "0")\<close> on month and day.
\<close>

type_synonym dateKey = "int \<times> int \<times> int"

section \<open>The worker variant: a key-value store\<close>

subsection \<open>Configuration and time helpers\<close>

text \<open>
  \<^verbatim>\<open>env.TZ_OFFSET\<close> and \<^verbatim>\<open>env.PAY_RATE\<close> are held as the result of \<^verbatim>\<open>Number(...)\<close> when it
  is finite, \<open>None\<close> otherwise; the offset is a whole number of hours.  The file
  \<^verbatim>\<open>worker.js\<close> holds two builds of the worker that differ in the first day of the week
  (Sunday in the first build, Monday in the second) and in the per-user rate, which only
  the first build has; \<open>build\<close> says which one runs.
\<close>

datatype build = SundayBuild | MondayBuild

record env =
  TZ_OFFSET :: "int option"
  PAY_RATE :: "real option"
  ADMIN_SECRET :: string
  build :: build

definition tzOffsetHours :: "env \<Rightarrow> int" where
  "tzOffsetHours e = (case TZ_OFFSET e of Some n \<Rightarrow> n | None \<Rightarrow> 0)"

definition rate :: "env \<Rightarrow> real" where
  "rate e = (case PAY_RATE e of Some r \<Rightarrow> r | None \<Rightarrow> 2.5)"

text \<open>\<^verbatim>\<open>nowLocal\<close>: the clock reading \<open>utc\<close> (\<^verbatim>\<open>Date.now()\<close>) is a parameter.\<close>

definition nowLocal :: "env \<Rightarrow> int \<Rightarrow> int \<times> int" where
  "nowLocal e utc = (utc, utc + tzOffsetHours e * 3600000)"

text \<open>\<^verbatim>\<open>fmtHM\<close> yields the hours and minutes it prints as \<^verbatim>\<open>${h}h ${m}m\<close>.\<close>

definition fmtHM :: "int \<Rightarrow> int \<times> int" where
  "fmtHM ms =
     (let s = max 0 (ms div 1000); h = s div 3600; m = (s mod 3600) div 60
      in (h, m))"

definition minutes :: "int \<Rightarrow> int" where
  "minutes ms = max 0 (ms div 60000)"

definition dollarsFromMs :: "int \<Rightarrow> real \<Rightarrow> real" where
  "dollarsFromMs ms r = (real_of_int ms / 3600000) * r"

definition fmtClock :: "int \<Rightarrow> int \<times> int" where
  "fmtClock ms = (getUTCHours ms, getUTCMinutes ms)"

definition dateKeyLocal :: "int \<Rightarrow> dateKey" where
  "dateKeyLocal localMs =
     (getUTCFullYear localMs, getUTCMonth localMs + 1, getUTCDate localMs)"

definition weekStartLocal :: "env \<Rightarrow> int \<Rightarrow> int" where
  "weekStartLocal e localMs =
     (let dow = (case build e of
                   SundayBuild \<Rightarrow> getUTCDay localMs
                 | MondayBuild \<Rightarrow> (getUTCDay localMs + 6) mod 7);
          start = localMs - dow * 86400000
      in DateUTC (getUTCFullYear start) (getUTCMonth start) (getUTCDate start))"

definition prevLocalWeekWindow :: "env \<Rightarrow> int \<Rightarrow> int \<times> int" where
  "prevLocalWeekWindow e localMs =
     (let anchor = localMs - 12 * 3600000;
          start = weekStartLocal e anchor;
          end = start + 7 * 86400000
      in (start, end))"

subsection \<open>Keys, values and the store\<close>

text \<open>
  The keys \<^verbatim>\<open>u:${u}:open\<close>, \<^verbatim>\<open>d:${u}:${day}\<close>, \<^verbatim>\<open>meta:${u}\<close>, \<^verbatim>\<open>cfg:${u}\<close> and
  \<^verbatim>\<open>weeklylock:${day}\<close> are kept as a datatype, and the JSON values by their shape.
  The store is an association list read with \<open>map_of\<close>; the lock carries the instant at
  which its \<^verbatim>\<open>expirationTtl\<close> runs out.
\<close>

type_synonym userId = string
type_synonym chatId = int

datatype key =
    kOpen userId
  | kDay userId dateKey
  | kMeta userId
  | kCfg userId
  | weeklylock dateKey

record session =
  inUtcMs :: int
  outUtcMs :: "int option"

datatype val =
    Open int
  | DayRec "session list" int
  | Meta "chatId list"
  | Cfg "real option"
  | Lock int

type_synonym kv = "(key \<times> val) list"

definition kvGet :: "kv \<Rightarrow> key \<Rightarrow> val option" where
  "kvGet s k = map_of s k"

definition putJSON :: "kv \<Rightarrow> key \<Rightarrow> val \<Rightarrow> kv" where
  "putJSON s k v = AList.update k v s"

definition kvDelete :: "kv \<Rightarrow> key \<Rightarrow> kv" where
  "kvDelete s k = AList.delete k s"

text \<open>A read at instant \<open>now\<close>: a lock whose time to live has run out is gone.\<close>

definition kvGetAt :: "int \<Rightarrow> kv \<Rightarrow> key \<Rightarrow> val option" where
  "kvGetAt now s k =
     (case map_of s k of
        Some (Lock expiry) \<Rightarrow> if now < expiry then Some (Lock expiry) else None
      | r \<Rightarrow> r)"

definition getOpen :: "kv \<Rightarrow> userId \<Rightarrow> val option" where
  "getOpen s u = kvGet s (kOpen u)"

text \<open>\<^verbatim>\<open>open?.startUtcMs\<close> used as a condition: present and not zero.\<close>

definition openStart :: "val option \<Rightarrow> int option" where
  "openStart v =
     (case v of
        Some (Open t) \<Rightarrow> if t \<noteq> 0 then Some t else None
      | _ \<Rightarrow> None)"

text \<open>\<^verbatim>\<open>getJSON(kv, kDay(u, day), { sessions: [], totalMs: 0 })\<close>.\<close>

definition getDayRec :: "kv \<Rightarrow> key \<Rightarrow> session list \<times> int" where
  "getDayRec s k =
     (case kvGet s k of
        Some (DayRec ss t) \<Rightarrow> (ss, t)
      | _ \<Rightarrow> ([], 0))"

text \<open>\<^verbatim>\<open>rec?.totalMs || 0\<close> and \<^verbatim>\<open>rec?.sessions?.length || 0\<close>.\<close>

definition dayTotalMs :: "kv \<Rightarrow> userId \<Rightarrow> dateKey \<Rightarrow> int" where
  "dayTotalMs s u day = snd (getDayRec s (kDay u day))"

definition daySessionCount :: "kv \<Rightarrow> userId \<Rightarrow> dateKey \<Rightarrow> nat" where
  "daySessionCount s u day = length (fst (getDayRec s (kDay u day)))"

definition getChats :: "kv \<Rightarrow> userId \<Rightarrow> chatId list" where
  "getChats s u = (case kvGet s (kMeta u) of Some (Meta cs) \<Rightarrow> cs | _ \<Rightarrow> [])"

definition ensureUserChat :: "kv \<Rightarrow> userId \<Rightarrow> chatId \<Rightarrow> kv" where
  "ensureUserChat s u c =
     (let cs = getChats s u
      in if c \<in> set cs then s else putJSON s (kMeta u) (Meta (cs @ [c])))"

subsection \<open>Rates\<close>

text \<open>
  \<^verbatim>\<open>cfg.rate\<close> is a JSON number when present, so \<^verbatim>\<open>Number.isFinite(Number(cfg.rate))\<close>
  holds exactly when the field is there.  The argument of \<^verbatim>\<open>setUserRate\<close> is any
  JavaScript number.
\<close>

datatype jsnum = Finite real | NaN | PosInfinity | NegInfinity

datatype error = bad_rate

definition getCfg :: "kv \<Rightarrow> userId \<Rightarrow> real option" where
  "getCfg s u = (case kvGet s (kCfg u) of Some (Cfg r) \<Rightarrow> r | _ \<Rightarrow> None)"

definition userRate :: "env \<Rightarrow> kv \<Rightarrow> userId \<Rightarrow> real" where
  "userRate e s u = (case getCfg s u of Some r \<Rightarrow> r | None \<Rightarrow> rate e)"

definition setUserRate :: "kv \<Rightarrow> userId \<Rightarrow> jsnum \<Rightarrow> error + (real \<times> kv)" where
  "setUserRate s u newRate =
     (case newRate of
        Finite v \<Rightarrow> if v \<le> 0 then Inl bad_rate else Inr (v, putJSON s (kCfg u) (Cfg (Some v)))
      | _ \<Rightarrow> Inl bad_rate)"

text \<open>The rate a build uses in its reports: the second build has no per-user rate.\<close>

definition reportRate :: "env \<Rightarrow> kv \<Rightarrow> userId \<Rightarrow> real" where
  "reportRate e s u = (case build e of SundayBuild \<Rightarrow> userRate e s u | MondayBuild \<Rightarrow> rate e)"

subsection \<open>Messages\<close>

text \<open>
  A reply is kept by its kind and the numbers it prints; \<^verbatim>\<open>sendMessage\<close> and
  \<^verbatim>\<open>sendDocument\<close> append to the list of messages sent.
\<close>

datatype reply =
    AlreadyClockedIn "int \<times> int"
  | ClockedIn "int \<times> int"
  | NotClockedIn
  | ClockedOut "int \<times> int" "int \<times> int" "int \<times> int"
  | Today "int \<times> int" int
  | ThisWeek "int \<times> int" int real real "(dateKey \<times> (int \<times> int)) list"
  | WeekTotal "int \<times> int" int real real
  | WeeklySummary "int \<times> int" int real real

record csvRow =
  rowDate :: dateKey
  rowSessions :: nat
  rowTotal :: "int \<times> int"
  rowRunning :: bool
  rowMinutes :: int

datatype msg =
    Text chatId reply
  | Document chatId dateKey "csvRow list"

subsection \<open>Commands\<close>

definition cmdIn :: "env \<Rightarrow> int \<Rightarrow> chatId \<Rightarrow> userId \<Rightarrow> kv \<Rightarrow> kv \<times> msg list" where
  "cmdIn e now chat u s =
     (let open = getOpen s u; (utcMs, localMs) = nowLocal e now
      in case openStart open of
           Some t \<Rightarrow>
             (s, [Text chat (AlreadyClockedIn (fmtClock (t + tzOffsetHours e * 3600000)))])
         | None \<Rightarrow>
             (let s1 = putJSON s (kOpen u) (Open utcMs);
                  dayKey = dateKeyLocal localMs;
                  (ss, total) = getDayRec s1 (kDay u dayKey);
                  s2 = putJSON s1 (kDay u dayKey)
                         (DayRec (ss @ [\<lparr>inUtcMs = utcMs, outUtcMs = None\<rparr>]) total)
              in (s2, [Text chat (ClockedIn (fmtClock localMs))])))"

text \<open>
  The loop of \<^verbatim>\<open>cmdOut\<close> walks the sessions from the last one and closes the first it
  finds without \<^verbatim>\<open>outUtcMs\<close>.
\<close>

fun closeFirstOpen :: "session list \<Rightarrow> int \<Rightarrow> session list" where
  "closeFirstOpen [] t = []"
| "closeFirstOpen (x # xs) t =
     (if outUtcMs x = None then x\<lparr>outUtcMs := Some t\<rparr> # xs
      else x # closeFirstOpen xs t)"

definition closeLastOpen :: "session list \<Rightarrow> int \<Rightarrow> session list" where
  "closeLastOpen ss t = rev (closeFirstOpen (rev ss) t)"

definition cmdOut :: "env \<Rightarrow> int \<Rightarrow> chatId \<Rightarrow> userId \<Rightarrow> kv \<Rightarrow> kv \<times> msg list" where
  "cmdOut e now chat u s =
     (case openStart (getOpen s u) of
        None \<Rightarrow> (s, [Text chat NotClockedIn])
      | Some t \<Rightarrow>
          (let (utcMs, localMs) = nowLocal e now;
               delta = utcMs - t;
               dayKey = dateKeyLocal localMs;
               (ss, total) = getDayRec s (kDay u dayKey);
               total' = total + delta;
               s1 = putJSON s (kDay u dayKey) (DayRec (closeLastOpen ss utcMs) total');
               s2 = kvDelete s1 (kOpen u)
           in (s2, [Text chat (ClockedOut (fmtClock localMs) (fmtHM delta) (fmtHM total'))])))"



text \<open>The seven days that \<^verbatim>\<open>for (let i = 0; i < 7; i++)\<close> walks through.\<close>

definition weekDays :: "int \<Rightarrow> int list" where
  "weekDays start = map (\<lambda>i. start + i * 86400000) [0, 1, 2, 3, 4, 5, 6]"






subsection \<open>The weekly runner\<close>

text \<open>
  \<^verbatim>\<open>deleteWeekRange\<close>: the loop \<^verbatim>\<open>for (ms = start; ms < end; ms += 86400_000)\<close> deletes
  the day keys, then the open flag is deleted.
\<close>

function deleteDays :: "userId \<Rightarrow> int \<Rightarrow> int \<Rightarrow> kv \<Rightarrow> kv" where
  "deleteDays u ms endUtcMs s =
     (if ms < endUtcMs
      then deleteDays u (ms + 86400000) endUtcMs (kvDelete s (kDay u (dateKeyLocal ms)))
      else s)"
  by pat_completeness auto
termination
  by (relation "measure (\<lambda>(u, ms, endUtcMs, s). nat (endUtcMs - ms))") auto

definition deleteWeekRange :: "userId \<Rightarrow> int \<Rightarrow> int \<Rightarrow> kv \<Rightarrow> kv" where
  "deleteWeekRange u startUtcMs endUtcMs s =
     kvDelete (deleteDays u startUtcMs endUtcMs s) (kOpen u)"

text \<open>
  What a run leaves behind: the store and the messages sent, either when it returns or
  when an exception leaves it (a \<^verbatim>\<open>fetch\<close> that rejects inside \<^verbatim>\<open>tgCall\<close> is not caught
  anywhere in \<^verbatim>\<open>runWeekly\<close>).  \<open>fails m\<close> says that sending the message \<open>m\<close> throws.
\<close>

datatype 'a outcome = Returned 'a | Thrown 'a

fun final :: "'a outcome \<Rightarrow> 'a" where
  "final (Returned x) = x"
| "final (Thrown x) = x"

fun sendAll :: "(msg \<Rightarrow> bool) \<Rightarrow> reply \<Rightarrow> dateKey \<Rightarrow> csvRow list \<Rightarrow> chatId list
                  \<Rightarrow> msg list \<Rightarrow> msg list outcome" where
  "sendAll fails summary fname csv [] out = Returned out"
| "sendAll fails summary fname csv (c # cs) out =
     (if fails (Text c summary) then Thrown out
      else if fails (Document c fname csv) then Thrown (out @ [Text c summary])
      else sendAll fails summary fname csv cs (out @ [Text c summary, Document c fname csv]))"


definition weeklyRow :: "kv \<Rightarrow> userId \<Rightarrow> int \<Rightarrow> csvRow" where
  "weeklyRow s u dayMs =
     (let dayKey = dateKeyLocal dayMs; t = dayTotalMs s u dayKey
      in \<lparr>rowDate = dayKey, rowSessions = daySessionCount s u dayKey, rowTotal = fmtHM t,
          rowRunning = False, rowMinutes = minutes t\<rparr>)"

definition markRunning :: "csvRow list \<Rightarrow> csvRow list" where
  "markRunning rows =
     (case rev rows of [] \<Rightarrow> [] | r # rs \<Rightarrow> rev (r\<lparr>rowRunning := True\<rparr> # rs))"

text \<open>\<^verbatim>\<open>extra\<close>: the running session up to the end of the week.\<close>

definition runningExtra :: "int \<Rightarrow> int \<Rightarrow> userId \<Rightarrow> kv \<Rightarrow> int" where
  "runningExtra utcMs end u s =
     (case openStart (getOpen s u) of
        Some t \<Rightarrow> max 0 (min utcMs end - t)
      | None \<Rightarrow> 0)"

definition weeklyTotal :: "int \<Rightarrow> int \<Rightarrow> int \<Rightarrow> userId \<Rightarrow> kv \<Rightarrow> int" where
  "weeklyTotal utcMs start end u s =
     (let closed = sum_list (map (\<lambda>dayMs. dayTotalMs s u (dateKeyLocal dayMs)) (weekDays start));
          extra = runningExtra utcMs end u s
      in if extra > 0 then closed + extra else closed)"

text \<open>The summary text and the rows of the CSV file that \<^verbatim>\<open>runWeekly\<close> builds for a user.\<close>

definition weeklySummary :: "env \<Rightarrow> int \<Rightarrow> int \<Rightarrow> int \<Rightarrow> userId \<Rightarrow> kv \<Rightarrow> reply" where
  "weeklySummary e utcMs start end u s =
     (let total = weeklyTotal utcMs start end u s;
          r = reportRate e s u
      in WeeklySummary (fmtHM total) (minutes total) r (dollarsFromMs total r))"

definition weeklyCsv :: "int \<Rightarrow> int \<Rightarrow> int \<Rightarrow> userId \<Rightarrow> kv \<Rightarrow> csvRow list" where
  "weeklyCsv utcMs start end u s =
     (let rows = map (weeklyRow s u) (weekDays start)
      in if runningExtra utcMs end u s > 0 then markRunning rows else rows)"

text \<open>The body of the loop over the users of \<^verbatim>\<open>runWeekly\<close>.\<close>

definition weeklyUser ::
  "env \<Rightarrow> (msg \<Rightarrow> bool) \<Rightarrow> int \<Rightarrow> int \<Rightarrow> int \<Rightarrow> userId \<Rightarrow> kv \<times> msg list
     \<Rightarrow> (kv \<times> msg list) outcome" where
  "weeklyUser e fails utcMs start end u st =
     (let (s, out) = st; chats = getChats s u
      in if chats = [] then Returned (s, out)
         else
           (let summary = weeklySummary e utcMs start end u s;
                csv = weeklyCsv utcMs start end u s;
                fname = dateKeyLocal start
            in case sendAll fails summary fname csv chats out of
                 Thrown out' \<Rightarrow> Thrown (s, out')
               | Returned out' \<Rightarrow> Returned (deleteWeekRange u start end s, out')))"

fun weeklyLoop ::
  "env \<Rightarrow> (msg \<Rightarrow> bool) \<Rightarrow> int \<Rightarrow> int \<Rightarrow> int \<Rightarrow> userId list \<Rightarrow> kv \<times> msg list
     \<Rightarrow> (kv \<times> msg list) outcome" where
  "weeklyLoop e fails utcMs start end [] st = Returned st"
| "weeklyLoop e fails utcMs start end (u # us) st =
     (case weeklyUser e fails utcMs start end u st of
        Thrown st' \<Rightarrow> Thrown st'
      | Returned st' \<Rightarrow> weeklyLoop e fails utcMs start end us st')"

text \<open>
  \<^verbatim>\<open>env.HOURS.list({ prefix: "meta:" })\<close>: the users with a \<^verbatim>\<open>meta:\<close> key, each once and
  in the lexicographic order of the key names, in which the store lists them (the pages of
  the listing are taken together).
\<close>

fun metaKeys :: "kv \<Rightarrow> userId list" where
  "metaKeys [] = []"
| "metaKeys ((kMeta u, v) # rest) = u # metaKeys rest"
| "metaKeys (entry # rest) = metaKeys rest"

definition listMeta :: "kv \<Rightarrow> userId list" where
  "listMeta s = sort (remdups (metaKeys s))"

definition runWeekly ::
  "env \<Rightarrow> (msg \<Rightarrow> bool) \<Rightarrow> int \<Rightarrow> kv \<times> msg list \<Rightarrow> (kv \<times> msg list) outcome" where
  "runWeekly e fails now st =
     (let (utcMs, localMs) = nowLocal e now;
          (start, end) = prevLocalWeekWindow e localMs
      in weeklyLoop e fails utcMs start end (listMeta (fst st)) st)"

text \<open>
  The cron entry point \<^verbatim>\<open>scheduled\<close>, with its lock of three hours.  The job it starts
  reads the clock again; the two readings are taken to be the same instant.
\<close>

definition scheduled ::
  "env \<Rightarrow> (msg \<Rightarrow> bool) \<Rightarrow> int \<Rightarrow> kv \<times> msg list \<Rightarrow> (kv \<times> msg list) outcome" where
  "scheduled e fails now st =
     (let (s, out) = st;
          (utcMs, localMs) = nowLocal e now;
          (start, end) = prevLocalWeekWindow e localMs;
          lockKey = weeklylock (dateKeyLocal start)
      in case kvGetAt now s lockKey of
           Some v \<Rightarrow> Returned (s, out)
         | None \<Rightarrow> runWeekly e fails now (putJSON s lockKey (Lock (now + 3 * 3600 * 1000)), out))"

text \<open>The route \<^verbatim>\<open>GET /admin/run-weekly?secret=...\<close> of \<^verbatim>\<open>fetch\<close>.\<close>

datatype response = Unauthorized | WeeklyOk | Failed

definition adminRunWeekly ::
  "env \<Rightarrow> (msg \<Rightarrow> bool) \<Rightarrow> int \<Rightarrow> string \<Rightarrow> kv \<times> msg list
     \<Rightarrow> response \<times> (kv \<times> msg list)" where
  "adminRunWeekly e fails now secret st =
     (if ADMIN_SECRET e \<noteq> [] \<and> secret = ADMIN_SECRET e
      then (case runWeekly e fails now st of
              Returned st' \<Rightarrow> (WeeklyOk, st')
            | Thrown st' \<Rightarrow> (Failed, st'))
      else (Unauthorized, st))"

section \<open>The SQLite variant\<close>

subsection \<open>Calendar keys of \<^verbatim>\<open>db.js\<close>\<close>

text \<open>
  \<^verbatim>\<open>db.js\<close> counts seconds and reads them with dayjs in the local time zone of the
  process, here a fixed offset \<open>tz\<close> in seconds.  \<^verbatim>\<open>isoWeekday(1)\<close> of the isoWeek
  plugin is \<^verbatim>\<open>this.day(this.day() % 7 ? 1 : 1 - 7)\<close>, and \<^verbatim>\<open>day(n)\<close> moves to day \<open>n\<close>
  of the week that begins on Sunday.
\<close>

definition localDay :: "int \<Rightarrow> int \<Rightarrow> int" where
  "localDay tz ts = (ts + tz) div 86400"

definition formatYMD :: "int \<Rightarrow> dateKey" where
  "formatYMD d = (YearFromDay d, MonthFromDay d + 1, DateFromDay d)"

definition formatHHmm :: "int \<Rightarrow> int \<Rightarrow> int \<times> int" where
  "formatHHmm tz ts = (((ts + tz) div 3600) mod 24, ((ts + tz) div 60) mod 60)"

definition dayKey :: "int \<Rightarrow> int \<Rightarrow> dateKey" where
  "dayKey tz ts = formatYMD (localDay tz ts)"

definition isoMonday :: "int \<Rightarrow> int \<Rightarrow> dateKey" where
  "isoMonday tz ts =
     (let d = localDay tz ts;
          day = (d + 4) mod 7;
          target = (if day mod 7 \<noteq> 0 then 1 else 1 - 7)
      in formatYMD (d + (target - day)))"

subsection \<open>Tables\<close>

record shift =
  shift_id :: nat
  user_id :: int
  start_ts :: int
  end_ts :: "int option"
  day_key :: dateKey
  week_key :: dateKey

text \<open>\<open>seq\<close> is the last id that \<^verbatim>\<open>AUTOINCREMENT\<close> gave out; \<open>users\<close> the ids in \<^verbatim>\<open>users\<close>.\<close>

record db =
  users :: "int list"
  shifts :: "shift list"
  seq :: nat

definition upsertUser :: "db \<Rightarrow> int \<Rightarrow> db" where
  "upsertUser d u = (if u \<in> set (users d) then d else d\<lparr>users := users d @ [u]\<rparr>)"


text \<open>
  \<^verbatim>\<open>SELECT * FROM shifts WHERE user_id = ? AND end_ts IS NULL ORDER BY id DESC LIMIT 1\<close>.
\<close>

definition isOpenFor :: "int \<Rightarrow> shift \<Rightarrow> bool" where
  "isOpenFor u r = (user_id r = u \<and> end_ts r = None)"

definition getOpenShift :: "db \<Rightarrow> int \<Rightarrow> shift option" where
  "getOpenShift d u =
     (case filter (isOpenFor u) (shifts d) of
        [] \<Rightarrow> None
      | r # rs \<Rightarrow> Some (fold (\<lambda>x best. if shift_id best < shift_id x then x else best) rs r))"

definition startShift :: "db \<Rightarrow> int \<Rightarrow> int \<Rightarrow> dateKey \<Rightarrow> dateKey \<Rightarrow> db" where
  "startShift d u nowTs day week =
     d\<lparr>shifts := shifts d @
          [\<lparr>shift_id = seq d + 1, user_id = u, start_ts = nowTs, end_ts = None,
            day_key = day, week_key = week\<rparr>],
       seq := seq d + 1\<rparr>"

definition endShift :: "db \<Rightarrow> int \<Rightarrow> nat \<Rightarrow> db" where
  "endShift d nowTs i =
     d\<lparr>shifts := map (\<lambda>r. if shift_id r = i then r\<lparr>end_ts := Some nowTs\<rparr> else r) (shifts d)\<rparr>"

subsection \<open>Clocking in and out\<close>

datatype dbMessage =
    AlreadyClockedInMsg
  | ClockedInAt "int \<times> int"
  | NoActiveShift
  | ClockedOutAt "int \<times> int" real

record result =
  ok :: bool
  message :: dbMessage

definition durationHours :: "int \<Rightarrow> int \<Rightarrow> real" where
  "durationHours startTs endTs = max 0 (real_of_int (endTs - startTs) / 3600)"

text \<open>
  The \<^verbatim>\<open>INSERT\<close> of \<^verbatim>\<open>clockIn\<close> is checked against
  \<^verbatim>\<open>FOREIGN KEY(user_id) REFERENCES users(user_id)\<close>: for a user without a row in
  \<^verbatim>\<open>users\<close> it throws and inserts nothing.
\<close>

datatype sqliteError = SQLITE_CONSTRAINT_FOREIGNKEY

definition clockIn :: "int \<Rightarrow> db \<Rightarrow> int \<Rightarrow> int \<Rightarrow> sqliteError + db \<times> result" where
  "clockIn tz d userId nowTs =
     (case getOpenShift d userId of
        Some row \<Rightarrow> Inr (d, \<lparr>ok = False, message = AlreadyClockedInMsg\<rparr>)
      | None \<Rightarrow>
          if userId \<in> set (users d)
          then Inr (startShift d userId nowTs (dayKey tz nowTs) (isoMonday tz nowTs),
                    \<lparr>ok = True, message = ClockedInAt (formatHHmm tz nowTs)\<rparr>)
          else Inl SQLITE_CONSTRAINT_FOREIGNKEY)"

definition clockOut :: "int \<Rightarrow> db \<Rightarrow> int \<Rightarrow> int \<Rightarrow> db \<times> result" where
  "clockOut tz d userId nowTs =
     (case getOpenShift d userId of
        None \<Rightarrow> (d, \<lparr>ok = False, message = NoActiveShift\<rparr>)
      | Some row \<Rightarrow>
          (endShift d nowTs (shift_id row),
           \<lparr>ok = True,
            message = ClockedOutAt (formatHHmm tz nowTs) (durationHours (start_ts row) nowTs)\<rparr>))"

subsection \<open>Queries and resets\<close>

text \<open>
  \<^verbatim>\<open>SUM(CASE WHEN end_ts IS NOT NULL THEN (end_ts - start_ts)/3600.0 ELSE 0 END)\<close> over the
  rows selected; over no row it is \<^verbatim>\<open>NULL\<close>, which \<^verbatim>\<open>Number(row?.hours || 0)\<close> reads as 0.
\<close>

definition closedHours :: "shift \<Rightarrow> real" where
  "closedHours r =
     (case end_ts r of Some e \<Rightarrow> real_of_int (e - start_ts r) / 3600 | None \<Rightarrow> 0)"




definition resetDay :: "int \<Rightarrow> db \<Rightarrow> int \<Rightarrow> int \<Rightarrow> db \<times> nat" where
  "resetDay tz d userId nowTs =
     (let today = dayKey tz nowTs;
          hit = (\<lambda>r. user_id r = userId \<and> day_key r = today)
      in (d\<lparr>shifts := filter (\<lambda>r. \<not> hit r) (shifts d)\<rparr>, length (filter hit (shifts d))))"

definition resetWeek :: "int \<Rightarrow> db \<Rightarrow> int \<Rightarrow> int \<Rightarrow> db \<times> nat" where
  "resetWeek tz d userId nowTs =
     (let week = isoMonday tz nowTs;
          hit = (\<lambda>r. user_id r = userId \<and> week_key r = week)
      in (d\<lparr>shifts := filter (\<lambda>r. \<not> hit r) (shifts d)\<rparr>, length (filter hit (shifts d))))"



subsection \<open>The weekly payout of the bot process\<close>










section \<open>Counting open sessions\<close>

text \<open>
  The number of open sessions of a user, for the property that it is never above one.
  In the worker a session is recorded twice: as the open flag \<^verbatim>\<open>u:${u}:open\<close> and as an
  entry of the day record under which the clock-in filed it, open while it has no
  \<^verbatim>\<open>outUtcMs\<close>.  In \<^verbatim>\<open>db.js\<close> it is a row of \<^verbatim>\<open>shifts\<close>, open while \<^verbatim>\<open>end_ts\<close> is
  \<^verbatim>\<open>NULL\<close>.  A sequence of clock-ins and clock-outs is a list of \<open>clocking\<close>s, each with
  its user and its instant; a clock-in that throws leaves the tables as they were.
\<close>

fun userSessions :: "kv \<Rightarrow> userId \<Rightarrow> session list" where
  "userSessions [] u = []"
| "userSessions ((kDay v day, DayRec ss t) # rest) u =
     (if v = u then ss @ userSessions rest u else userSessions rest u)"
| "userSessions (entry # rest) u = userSessions rest u"

definition countOpenSessions :: "kv \<Rightarrow> userId \<Rightarrow> nat" where
  "countOpenSessions s u = length (filter (\<lambda>x. outUtcMs x = None) (userSessions s u))"

definition countOpenMarkers :: "kv \<Rightarrow> userId \<Rightarrow> nat" where
  "countOpenMarkers s u = (case openStart (getOpen s u) of Some t \<Rightarrow> 1 | None \<Rightarrow> 0)"

definition countOpenShifts :: "db \<Rightarrow> int \<Rightarrow> nat" where
  "countOpenShifts d u = length (filter (isOpenFor u) (shifts d))"

datatype clocking = ClockIn int int | ClockOut int int

fun clockings :: "int \<Rightarrow> db \<Rightarrow> clocking list \<Rightarrow> db" where
  "clockings tz d [] = d"
| "clockings tz d (ClockIn u t # cs) =
     (case clockIn tz d u t of
        Inr (d', res) \<Rightarrow> clockings tz d' cs
      | Inl err \<Rightarrow> clockings tz d cs)"
| "clockings tz d (ClockOut u t # cs) = clockings tz (fst (clockOut tz d u t)) cs"

section \<open>Properties of the calendar functions\<close>

lemma div_lo: "0 < k \<Longrightarrow> k * (a div k) \<le> (a::int)"
proof -
  assume k: "0 < k"
  have "a = k * (a div k) + a mod k" by simp
  moreover have "0 \<le> a mod k" using k by simp
  ultimately show ?thesis by linarith
qed

lemma div_hi: "0 < k \<Longrightarrow> (a::int) < k * (a div k) + k"
proof -
  assume k: "0 < k"
  have "a = k * (a div k) + a mod k" by simp
  moreover have "a mod k < k" using k by simp
  ultimately show ?thesis by linarith
qed

lemma est_lower: "DayFromYear (1970 + (400 * d) div 146097 - 1) \<le> d"
proof -
  define x where "x = (400 * d) div 146097"
  define qa where "qa = (x - 1 + 1) div 4"
  define qb where "qb = (x - 1 + 69) div 100"
  define qc where "qc = (x - 1 + 369) div 400"
  have x: "146097 * x \<le> 400 * d" unfolding x_def by (rule div_lo) simp
  have a: "4 * qa \<le> x - 1 + 1" unfolding qa_def by (rule div_lo) simp
  have b: "x - 1 + 69 < 100 * qb + 100" unfolding qb_def by (rule div_hi) simp
  have c: "400 * qc \<le> x - 1 + 369" unfolding qc_def by (rule div_lo) simp
  have "DayFromYear (1970 + x - 1) = 365 * x - 365 + qa - qb + qc"
    unfolding DayFromYear_def qa_def qb_def qc_def by (simp add: algebra_simps)
  with x a b c show ?thesis unfolding x_def[symmetric] by linarith
qed

lemma est_upper: "d < DayFromYear (1970 + (400 * d) div 146097 + 2)"
proof -
  define x where "x = (400 * d) div 146097"
  define qa where "qa = (x + 2 + 1) div 4"
  define qb where "qb = (x + 2 + 69) div 100"
  define qc where "qc = (x + 2 + 369) div 400"
  have x: "400 * d < 146097 * x + 146097" unfolding x_def by (rule div_hi) simp
  have a: "x + 2 + 1 < 4 * qa + 4" unfolding qa_def by (rule div_hi) simp
  have b: "100 * qb \<le> x + 2 + 69" unfolding qb_def by (rule div_lo) simp
  have c: "x + 2 + 369 < 400 * qc + 400" unfolding qc_def by (rule div_hi) simp
  have "DayFromYear (1970 + x + 2) = 365 * x + 730 + qa - qb + qc"
    unfolding DayFromYear_def qa_def qb_def qc_def by (simp add: algebra_simps)
  with x a b c show ?thesis unfolding x_def[symmetric] by linarith
qed

lemma YearFromDay_spec:
  "DayFromYear (YearFromDay d) \<le> d \<and> d < DayFromYear (YearFromDay d + 1)"
  using est_lower[of d] est_upper[of d]
  by (auto simp: YearFromDay_def Let_def algebra_simps)

lemma DayFromYear_mono:
  assumes "y \<le> y'"
  shows "DayFromYear y \<le> DayFromYear y'"
proof (cases "y = y'")
  case True
  then show ?thesis by simp
next
  case False
  with assms have lt: "y + 1 \<le> y'" by simp
  define A where "A = (y - 1969) div 4"
  define A' where "A' = (y' - 1969) div 4"
  define B where "B = (y - 1901) div 100"
  define B' where "B' = (y' - 1901) div 100"
  define C where "C = (y - 1601) div 400"
  define C' where "C' = (y' - 1601) div 400"
  have a: "A \<le> A'" unfolding A_def A'_def using assms by (intro zdiv_mono1) auto
  have c: "C \<le> C'" unfolding C_def C'_def using assms by (intro zdiv_mono1) auto
  have b1: "100 * B' \<le> y' - 1901" unfolding B'_def by (rule div_lo) simp
  have b2: "y - 1901 < 100 * B + 100" unfolding B_def by (rule div_hi) simp
  have "DayFromYear y = 365 * y - 719050 + A - B + C"
    unfolding DayFromYear_def A_def B_def C_def by simp
  moreover have "DayFromYear y' = 365 * y' - 719050 + A' - B' + C'"
    unfolding DayFromYear_def A'_def B'_def C'_def by simp
  ultimately show ?thesis using a c b1 b2 lt by linarith
qed

lemma YearFromDay_unique:
  assumes "DayFromYear y \<le> d" "d < DayFromYear (y + 1)"
  shows "YearFromDay d = y"
proof (rule ccontr)
  assume ne: "YearFromDay d \<noteq> y"
  have s: "DayFromYear (YearFromDay d) \<le> d" "d < DayFromYear (YearFromDay d + 1)"
    using YearFromDay_spec[of d] by auto
  show False
  proof (cases "YearFromDay d < y")
    case True
    then have "DayFromYear (YearFromDay d + 1) \<le> DayFromYear y"
      by (intro DayFromYear_mono) simp
    with s assms show False by linarith
  next
    case False
    with ne have "y + 1 \<le> YearFromDay d" by simp
    then have "DayFromYear (y + 1) \<le> DayFromYear (YearFromDay d)"
      by (rule DayFromYear_mono)
    with s assms show False by linarith
  qed
qed

lemma YearFromDay_ge:
  assumes "DayFromYear y \<le> d"
  shows "y \<le> YearFromDay d"
proof (rule ccontr)
  assume "\<not> y \<le> YearFromDay d"
  then have "YearFromDay d + 1 \<le> y" by simp
  then have "DayFromYear (YearFromDay d + 1) \<le> DayFromYear y" by (rule DayFromYear_mono)
  with YearFromDay_spec[of d] assms show False by linarith
qed

lemma MonthFromDay_range: "0 \<le> MonthFromDay d \<and> MonthFromDay d \<le> 11"
  by (simp add: MonthFromDay_def Let_def)

lemma MakeDay_roundtrip:
  "MakeDay (YearFromDay d) (MonthFromDay d) (DateFromDay d) = d"
proof -
  have r: "MonthFromDay d div 12 = 0" "MonthFromDay d mod 12 = MonthFromDay d"
    using MonthFromDay_range[of d] by auto
  show ?thesis
    by (simp add: MakeDay_def Let_def r DateFromDay_def DayWithinYear_def)
qed

lemma formatYMD_inj: "formatYMD d = formatYMD d' \<Longrightarrow> d = d'"
proof -
  assume "formatYMD d = formatYMD d'"
  then have "YearFromDay d = YearFromDay d'" "MonthFromDay d = MonthFromDay d'"
    "DateFromDay d = DateFromDay d'"
    by (auto simp: formatYMD_def)
  then have "MakeDay (YearFromDay d) (MonthFromDay d) (DateFromDay d)
           = MakeDay (YearFromDay d') (MonthFromDay d') (DateFromDay d')" by simp
  then show ?thesis by (simp only: MakeDay_roundtrip)
qed

lemma dateKeyLocal_formatYMD: "dateKeyLocal t = formatYMD (Day t)"
  by (simp add: dateKeyLocal_def formatYMD_def getUTCFullYear_def getUTCMonth_def getUTCDate_def)

lemma dateKeyLocal_eq_iff: "dateKeyLocal t = dateKeyLocal t' \<longleftrightarrow> Day t = Day t'"
  using formatYMD_inj by (auto simp: dateKeyLocal_formatYMD)

lemma DateUTC_roundtrip:
  assumes "DayFromYear 100 \<le> Day t"
  shows "DateUTC (getUTCFullYear t) (getUTCMonth t) (getUTCDate t) = Day t * msPerDay"
proof -
  have "100 \<le> YearFromDay (Day t)" using assms by (rule YearFromDay_ge)
  then show ?thesis
    by (simp add: DateUTC_def getUTCFullYear_def getUTCMonth_def getUTCDate_def MakeDay_roundtrip)
qed

lemma DayFromYear_100: "DayFromYear 100 = - 683003"
  by (simp add: DayFromYear_def)

lemma div_succ:
  fixes a k :: int
  assumes "0 < k"
  shows "(a + 1) div k = a div k + (if (a + 1) mod k = 0 then 1 else 0)"
proof -
  have e1: "a = k * (a div k) + a mod k" by simp
  have e2: "a + 1 = k * ((a + 1) div k) + (a + 1) mod k" by simp
  have b1: "0 \<le> a mod k" "a mod k < k" using assms by simp_all
  have b2: "0 \<le> (a + 1) mod k" "(a + 1) mod k < k" using assms by simp_all
  define q where "q = a div k"
  define q' where "q' = (a + 1) div k"
  define r where "r = a mod k"
  define r' where "r' = (a + 1) mod k"
  have eq: "k * q' + r' = k * q + r + 1"
    using e1 e2 unfolding q_def q'_def r_def r'_def by linarith
  have r: "0 \<le> r" "r < k" "0 \<le> r'" "r' < k" using b1 b2 unfolding r_def r'_def by auto
  have "q' = q \<or> q' = q + 1"
  proof -
    have "k * (q' - q) = r + 1 - r'" using eq by (simp add: algebra_simps)
    moreover have "- k < r + 1 - r'" "r + 1 - r' \<le> k" using r by linarith+
    ultimately have "k * (- 1) < k * (q' - q)" "k * (q' - q) \<le> k * 1" by simp_all
    then have "- 1 < q' - q" "q' - q \<le> 1" using assms
      by (simp_all only: mult_less_cancel_left_pos mult_le_cancel_left_pos)
    then show ?thesis by linarith
  qed
  then show ?thesis
  proof
    assume s: "q' = q"
    then have "r' = r + 1" using eq by simp
    then have "r' \<noteq> 0" using r by linarith
    then show ?thesis using s unfolding q_def q'_def r'_def by simp
  next
    assume s: "q' = q + 1"
    then have "r' + k = r + 1" using eq by (simp add: algebra_simps)
    then have "r' = 0" using r by linarith
    then show ?thesis using s unfolding q_def q'_def r'_def by simp
  qed
qed


lemma mod_shift:
  fixes y :: int
  shows "(y - 1968) mod 4 = y mod 4" "(y - 1900) mod 100 = y mod 100"
    "(y - 1600) mod 400 = y mod 400"
proof -
  have "(y - 1968) mod 4 = (y + 4 * (- 492)) mod 4" by simp
  also have "\<dots> = y mod 4" by (simp only: mod_mult_self2)
  finally show "(y - 1968) mod 4 = y mod 4" .
  have "(y - 1900) mod 100 = (y + 100 * (- 19)) mod 100" by simp
  also have "\<dots> = y mod 100" by (simp only: mod_mult_self2)
  finally show "(y - 1900) mod 100 = y mod 100" .
  have "(y - 1600) mod 400 = (y + 400 * (- 4)) mod 400" by simp
  also have "\<dots> = y mod 400" by (simp only: mod_mult_self2)
  finally show "(y - 1600) mod 400 = y mod 400" .
qed

lemma mod_chain:
  fixes y :: int
  shows "y mod 100 = 0 \<Longrightarrow> y mod 4 = 0" "y mod 400 = 0 \<Longrightarrow> y mod 100 = 0"
proof -
  assume "y mod 100 = 0"
  then have "100 dvd y" by (simp add: dvd_eq_mod_eq_0)
  moreover have "(4::int) dvd 100" by simp
  ultimately have "4 dvd y" by (rule dvd_trans[rotated])
  then show "y mod 4 = 0" by (simp add: dvd_eq_mod_eq_0)
next
  assume "y mod 400 = 0"
  then have "400 dvd y" by (simp add: dvd_eq_mod_eq_0)
  moreover have "(100::int) dvd 400" by simp
  ultimately have "100 dvd y" by (rule dvd_trans[rotated])
  then show "y mod 100 = 0" by (simp add: dvd_eq_mod_eq_0)
qed

text \<open>The days of a year, as the leap year rule counts them, separate the years.\<close>

lemma DayFromYear_Suc: "DayFromYear (y + 1) = DayFromYear y + DaysInYear y"
proof -
  have a: "(y + 1 - 1969) div 4 = (y - 1969) div 4 + (if y mod 4 = 0 then 1 else 0)"
    using div_succ[of 4 "y - 1969"] mod_shift(1)[of y] by (simp add: algebra_simps)
  have b: "(y + 1 - 1901) div 100 = (y - 1901) div 100 + (if y mod 100 = 0 then 1 else 0)"
    using div_succ[of 100 "y - 1901"] mod_shift(2)[of y] by (simp add: algebra_simps)
  have c: "(y + 1 - 1601) div 400 = (y - 1601) div 400 + (if y mod 400 = 0 then 1 else 0)"
    using div_succ[of 400 "y - 1601"] mod_shift(3)[of y] by (simp add: algebra_simps)
  show ?thesis
    unfolding DayFromYear_def DaysInYear_def a b c
    using mod_chain[of y] by auto
qed

lemma DayWithinYear_range:
  "0 \<le> DayWithinYear d \<and> DayWithinYear d < 365 + InLeapYear (YearFromDay d)"
proof -
  have "DaysInYear (YearFromDay d) = 365 + InLeapYear (YearFromDay d)"
    by (simp add: DaysInYear_def InLeapYear_def)
  with YearFromDay_spec[of d] DayFromYear_Suc[of "YearFromDay d"] show ?thesis
    by (simp add: DayWithinYear_def)
qed

lemma InLeapYear_range: "InLeapYear y = 0 \<or> InLeapYear y = 1"
  by (simp add: InLeapYear_def)

text \<open>
  So the key of a day is a date of the calendar: its month lies between 1 and 12 and its
  day of the month between 1 and 31.
\<close>

lemma DateFromDay_range: "1 \<le> DateFromDay d \<and> DateFromDay d \<le> 31"
proof -
  define w where "w = DayWithinYear d"
  define l where "l = InLeapYear (YearFromDay d)"
  have w: "0 \<le> w" "w < 365 + l" using DayWithinYear_range[of d] by (simp_all add: w_def l_def)
  have l: "l = 0 \<or> l = 1" using InLeapYear_range by (simp add: l_def)
  have "DateFromDay d =
      w - monthStart (if w < 31 then 0 else if w < 59 + l then 1 else if w < 90 + l then 2
         else if w < 120 + l then 3 else if w < 151 + l then 4 else if w < 181 + l then 5
         else if w < 212 + l then 6 else if w < 243 + l then 7 else if w < 273 + l then 8
         else if w < 304 + l then 9 else if w < 334 + l then 10 else 11) l + 1"
    by (simp add: DateFromDay_def MonthFromDay_def Let_def w_def l_def)
  with w l show ?thesis by (auto simp: monthStart_def)
qed

lemma dateKeyLocal_valid:
  "1 \<le> fst (snd (dateKeyLocal t)) \<and> fst (snd (dateKeyLocal t)) \<le> 12
   \<and> 1 \<le> snd (snd (dateKeyLocal t)) \<and> snd (snd (dateKeyLocal t)) \<le> 31"
  using MonthFromDay_range[of "Day t"] DateFromDay_range[of "Day t"]
  by (simp add: dateKeyLocal_def getUTCMonth_def getUTCDate_def)

section \<open>Week keys\<close>

lemma Day_sub_days: "Day (t - k * 86400000) = Day t - k"
  by (simp add: Day_def msPerDay_def)

lemma Day_window:
  assumes "W mod msPerDay = 0" "W + a * msPerDay \<le> t" "t < W + b * msPerDay"
  shows "Day W + a \<le> Day t \<and> Day t < Day W + b"
proof -
  have W: "W = Day W * 86400000" using assms(1) by (auto simp: Day_def msPerDay_def)
  have lo: "86400000 * Day t \<le> t" unfolding Day_def msPerDay_def by (rule div_lo) simp
  have hi: "t < 86400000 * Day t + 86400000" unfolding Day_def msPerDay_def by (rule div_hi) simp
  from assms(2,3) have "Day W * 86400000 + a * 86400000 \<le> t" "t < Day W * 86400000 + b * 86400000"
    using W by (simp_all add: msPerDay_def)
  with lo hi show ?thesis by linarith
qed

lemma week_shift:
  fixes w d c :: int
  assumes "(w + c) mod 7 = 0"
  shows "(d + c) mod 7 = (d - w) mod 7"
proof -
  have "(d + c) mod 7 = ((d - w) + (w + c)) mod 7" by (simp add: algebra_simps)
  also have "\<dots> = ((d - w) mod 7 + (w + c) mod 7) mod 7" by (simp only: mod_add_eq)
  also have "\<dots> = (d - w) mod 7" using assms by simp
  finally show ?thesis .
qed

lemma week_floor:
  fixes w d c :: int
  assumes "(w + c) mod 7 = 0" "w \<le> d" "d < w + 7"
  shows "d - (d + c) mod 7 = w"
proof -
  have "(d - w) mod 7 = d - w" using assms(2,3) by simp
  with week_shift[OF assms(1), of d] show ?thesis by simp
qed

lemma week_floor_prev:
  fixes w d c :: int
  assumes "(w + c) mod 7 = 0" "w - 7 \<le> d" "d < w"
  shows "d - (d + c) mod 7 = w - 7"
proof -
  have "((w - 7) + c) mod 7 = 0" using assms(1)
    by (metis add.commute add_diff_eq diff_add_cancel mod_add_self2 uminus_add_conv_diff mod_diff_right_eq mod_self diff_zero)
  from week_floor[OF this, of d] assms(2,3) show ?thesis by simp
qed

lemma monday_dow: "((d + 4) mod 7 + 6) mod 7 = (d + 3) mod (7::int)"
proof -
  have "((d + 4) mod 7 + 6) mod 7 = ((d + 4) + 6) mod 7" by (simp add: mod_add_left_eq)
  also have "\<dots> = ((d + 3) + 7) mod 7" by (simp add: algebra_simps)
  also have "\<dots> = (d + 3) mod 7" by (simp only: mod_add_self2)
  finally show ?thesis .
qed

lemma weekStartLocal_Sunday:
  assumes "build e = SundayBuild" "DayFromYear 100 \<le> Day t - (Day t + 4) mod 7"
  shows "weekStartLocal e t = (Day t - (Day t + 4) mod 7) * msPerDay"
  using assms DateUTC_roundtrip[of "t - (Day t + 4) mod 7 * 86400000"]
  by (simp add: weekStartLocal_def Let_def getUTCDay_def WeekDay_def Day_sub_days)

lemma weekStartLocal_Monday:
  assumes "build e = MondayBuild" "DayFromYear 100 \<le> Day t - (Day t + 3) mod 7"
  shows "weekStartLocal e t = (Day t - (Day t + 3) mod 7) * msPerDay"
  using assms DateUTC_roundtrip[of "t - (Day t + 3) mod 7 * 86400000"]
  by (simp add: weekStartLocal_def Let_def getUTCDay_def WeekDay_def Day_sub_days monday_dow)

lemma iso_dow:
  fixes d :: int
  shows "d + ((if (d + 4) mod 7 mod 7 \<noteq> 0 then 1 else 1 - 7) - (d + 4) mod 7) = d - (d + 3) mod 7"
proof -
  have "(d + 4) mod 7 = ((d + 3) + 1) mod 7" by (simp add: algebra_simps)
  also have "\<dots> = ((d + 3) mod 7 + 1) mod 7" by (simp only: mod_add_left_eq)
  finally have "(d + 4) mod 7 = ((d + 3) mod 7 + 1) mod 7" .
  moreover have "0 \<le> (d + 3) mod 7" "(d + 3) mod 7 < 7" by simp_all
  ultimately show ?thesis
    by (cases "(d + 3) mod 7 = 6") (auto simp: mod_pos_pos_trivial)
qed

lemma isoMonday_eq:
  "isoMonday tz ts = formatYMD (localDay tz ts - (localDay tz ts + 3) mod 7)"
  by (simp only: isoMonday_def Let_def iso_dow)

lemma localDay_window:
  assumes "(V + tz) mod 86400 = 0" "V + a * 86400 \<le> s" "s < V + b * 86400"
  shows "localDay tz V + a \<le> localDay tz s \<and> localDay tz s < localDay tz V + b"
proof -
  have V: "V + tz = localDay tz V * 86400" using assms(1) by (auto simp: localDay_def)
  have lo: "86400 * localDay tz s \<le> s + tz" unfolding localDay_def by (rule div_lo) simp
  have hi: "s + tz < 86400 * localDay tz s + 86400" unfolding localDay_def by (rule div_hi) simp
  from assms(2,3) V lo hi show ?thesis by linarith
qed

lemma worker_week:
  assumes W: "W mod msPerDay = 0"
    and wd: "getUTCDay W = (case build e of SundayBuild \<Rightarrow> 0 | MondayBuild \<Rightarrow> 1)"
    and dom: "DayFromYear 100 \<le> Day W - 7"
  shows "W \<le> t \<Longrightarrow> t < W + 7 * msPerDay \<Longrightarrow> weekStartLocal e t = W"
    and "W - 7 * msPerDay \<le> t \<Longrightarrow> t < W \<Longrightarrow> weekStartLocal e t = W - 7 * msPerDay"
proof -
  have Weq: "W = Day W * msPerDay" using W by (auto simp: Day_def)
  obtain c :: int where c: "(Day W + c) mod 7 = 0"
    and ws: "\<And>t. DayFromYear 100 \<le> Day t - (Day t + c) mod 7 \<Longrightarrow>
               weekStartLocal e t = (Day t - (Day t + c) mod 7) * msPerDay"
  proof (cases "build e")
    case SundayBuild
    with wd have "(Day W + 4) mod 7 = 0" by (simp add: getUTCDay_def WeekDay_def)
    with SundayBuild that[of 4] show ?thesis by (auto intro: weekStartLocal_Sunday)
  next
    case MondayBuild
    with wd have "(Day W + 4) mod 7 = 1" by (simp add: getUTCDay_def WeekDay_def)
    then have "(Day W + 3) mod 7 = 0" by presburger
    with MondayBuild that[of 3] show ?thesis by (auto intro: weekStartLocal_Monday)
  qed
  {
    assume "W \<le> t" "t < W + 7 * msPerDay"
    then have "Day W + 0 \<le> Day t \<and> Day t < Day W + 7"
      by (intro Day_window[OF W]) simp_all
    then have fl: "Day t - (Day t + c) mod 7 = Day W"
      using week_floor[OF c, of "Day t"] by simp
    with dom ws[of t] have "weekStartLocal e t = Day W * msPerDay" by simp
    with Weq show "weekStartLocal e t = W" by simp
  }
  {
    assume "W - 7 * msPerDay \<le> t" "t < W"
    then have "Day W + (- 7) \<le> Day t \<and> Day t < Day W + 0"
      by (intro Day_window[OF W]) simp_all
    then have fl: "Day t - (Day t + c) mod 7 = Day W - 7"
      using week_floor_prev[OF c, of "Day t"] by simp
    with dom ws[of t] have "weekStartLocal e t = (Day W - 7) * msPerDay" by simp
    with Weq show "weekStartLocal e t = W - 7 * msPerDay" by (simp add: algebra_simps)
  }
qed

lemma db_week:
  assumes V: "(V + tz) mod 86400 = 0"
    and wd: "(localDay tz V + 4) mod 7 = 1"
  shows "V \<le> s \<Longrightarrow> s < V + 7 * 86400 \<Longrightarrow> isoMonday tz s = dayKey tz V"
    and "V - 7 * 86400 \<le> s \<Longrightarrow> s < V \<Longrightarrow> isoMonday tz s = formatYMD (localDay tz V - 7)"
proof -
  from wd have c: "(localDay tz V + 3) mod 7 = 0" by presburger
  {
    assume "V \<le> s" "s < V + 7 * 86400"
    then have "localDay tz V + 0 \<le> localDay tz s \<and> localDay tz s < localDay tz V + 7"
      by (intro localDay_window[OF V]) simp_all
    then have "localDay tz s - (localDay tz s + 3) mod 7 = localDay tz V"
      using week_floor[OF c, of "localDay tz s"] by simp
    then show "isoMonday tz s = dayKey tz V" by (simp add: isoMonday_eq dayKey_def)
  }
  {
    assume "V - 7 * 86400 \<le> s" "s < V"
    then have "localDay tz V + (- 7) \<le> localDay tz s \<and> localDay tz s < localDay tz V + 0"
      by (intro localDay_window[OF V]) simp_all
    then have "localDay tz s - (localDay tz s + 3) mod 7 = localDay tz V - 7"
      using week_floor_prev[OF c, of "localDay tz s"] by simp
    then show "isoMonday tz s = formatYMD (localDay tz V - 7)" by (simp add: isoMonday_eq)
  }
qed

text \<open>
  Claim C6.  Take a week window that begins at \<open>W\<close>, a local midnight of the configured first
  day of the week (Sunday or Monday for the two builds of the worker, Monday for
  \<^verbatim>\<open>isoMonday\<close> of \<^verbatim>\<open>db.js\<close>).  Any two instants of the seven days from \<open>W\<close> get the same
  week start and the same week key, an instant of the day before \<open>W\<close> gets the key of the
  week before, which is a different key; nothing in this depends on the year, so a week that
  runs across New Year keeps one key.  For the worker the window lies in the years from 100
  on, where \<^verbatim>\<open>Date.UTC\<close> takes the year as it is.
\<close>

theorem weekKey_stable:
  "(W mod msPerDay = 0
      \<and> getUTCDay W = (case build e of SundayBuild \<Rightarrow> 0 | MondayBuild \<Rightarrow> 1)
      \<and> DayFromYear 100 \<le> Day W - 7
      \<and> W \<le> t1 \<and> t1 < W + 7 * msPerDay \<and> W \<le> t2 \<and> t2 < W + 7 * msPerDay
      \<and> W - msPerDay \<le> t \<and> t < W
    \<longrightarrow> weekStartLocal e t1 = W \<and> weekStartLocal e t2 = W
        \<and> dateKeyLocal (weekStartLocal e t1) = dateKeyLocal (weekStartLocal e t2)
        \<and> weekStartLocal e t = W - 7 * msPerDay
        \<and> dateKeyLocal (weekStartLocal e t) \<noteq> dateKeyLocal (weekStartLocal e t1))
   \<and> ((V + tz) mod 86400 = 0 \<and> (localDay tz V + 4) mod 7 = 1
      \<and> V \<le> s1 \<and> s1 < V + 7 * 86400 \<and> V \<le> s2 \<and> s2 < V + 7 * 86400
      \<and> V - 86400 \<le> s \<and> s < V
    \<longrightarrow> isoMonday tz s1 = dayKey tz V \<and> isoMonday tz s2 = dayKey tz V
        \<and> isoMonday tz s \<noteq> isoMonday tz s1)"
proof (intro conjI impI)
  assume h: "W mod msPerDay = 0
      \<and> getUTCDay W = (case build e of SundayBuild \<Rightarrow> 0 | MondayBuild \<Rightarrow> 1)
      \<and> DayFromYear 100 \<le> Day W - 7
      \<and> W \<le> t1 \<and> t1 < W + 7 * msPerDay \<and> W \<le> t2 \<and> t2 < W + 7 * msPerDay
      \<and> W - msPerDay \<le> t \<and> t < W"
  then have W: "W mod msPerDay = 0"
    and wd: "getUTCDay W = (case build e of SundayBuild \<Rightarrow> 0 | MondayBuild \<Rightarrow> 1)"
    and dom: "DayFromYear 100 \<le> Day W - 7" by auto
  from h have t: "W - 7 * msPerDay \<le> t" "t < W" by (auto simp: msPerDay_def)
  show 1: "weekStartLocal e t1 = W" using worker_week(1)[OF W wd dom] h by blast
  show 2: "weekStartLocal e t2 = W" using worker_week(1)[OF W wd dom] h by blast
  show "dateKeyLocal (weekStartLocal e t1) = dateKeyLocal (weekStartLocal e t2)"
    by (simp add: 1 2)
  show 3: "weekStartLocal e t = W - 7 * msPerDay" using worker_week(2)[OF W wd dom t] .
  have "Day (W - 7 * msPerDay) = Day W - 7" by (simp add: Day_def msPerDay_def)
  then show "dateKeyLocal (weekStartLocal e t) \<noteq> dateKeyLocal (weekStartLocal e t1)"
    by (simp add: 1 3 dateKeyLocal_eq_iff)
next
  assume h: "(V + tz) mod 86400 = 0 \<and> (localDay tz V + 4) mod 7 = 1
      \<and> V \<le> s1 \<and> s1 < V + 7 * 86400 \<and> V \<le> s2 \<and> s2 < V + 7 * 86400
      \<and> V - 86400 \<le> s \<and> s < V"
  then have V: "(V + tz) mod 86400 = 0" and wd: "(localDay tz V + 4) mod 7 = 1" by auto
  from h have s: "V - 7 * 86400 \<le> s" "s < V" by auto
  show 1: "isoMonday tz s1 = dayKey tz V" using db_week(1)[OF V wd] h by blast
  show "isoMonday tz s2 = dayKey tz V" using db_week(1)[OF V wd] h by blast
  have "isoMonday tz s = formatYMD (localDay tz V - 7)" using db_week(2)[OF V wd s] .
  moreover have "formatYMD (localDay tz V - 7) \<noteq> formatYMD (localDay tz V)"
    using formatYMD_inj[of "localDay tz V - 7" "localDay tz V"] by auto
  ultimately show "isoMonday tz s \<noteq> isoMonday tz s1" by (simp add: 1 dayKey_def)
qed


theorem weekKey_stable_witness:
  "weekStartLocal \<lparr>TZ_OFFSET = Some 0, PAY_RATE = None, ADMIN_SECRET = ''s'', build = SundayBuild\<rparr>
      1703980800000 = 1703980800000
   \<and> weekStartLocal \<lparr>TZ_OFFSET = Some 0, PAY_RATE = None, ADMIN_SECRET = ''s'', build = SundayBuild\<rparr>
      1704240000000 = 1703980800000
   \<and> dateKeyLocal (weekStartLocal \<lparr>TZ_OFFSET = Some 0, PAY_RATE = None, ADMIN_SECRET = ''s'', build = SundayBuild\<rparr> 1703980800000)
     = dateKeyLocal (weekStartLocal \<lparr>TZ_OFFSET = Some 0, PAY_RATE = None, ADMIN_SECRET = ''s'', build = SundayBuild\<rparr> 1704240000000)
   \<and> weekStartLocal \<lparr>TZ_OFFSET = Some 0, PAY_RATE = None, ADMIN_SECRET = ''s'', build = SundayBuild\<rparr>
      1703980799999 = 1703980800000 - 7 * msPerDay
   \<and> dateKeyLocal (weekStartLocal \<lparr>TZ_OFFSET = Some 0, PAY_RATE = None, ADMIN_SECRET = ''s'', build = SundayBuild\<rparr> 1703980799999)
     \<noteq> dateKeyLocal (weekStartLocal \<lparr>TZ_OFFSET = Some 0, PAY_RATE = None, ADMIN_SECRET = ''s'', build = SundayBuild\<rparr> 1703980800000)
   \<and> isoMonday 28800 1735574400 = dayKey 28800 1735488000
   \<and> isoMonday 28800 1735747200 = dayKey 28800 1735488000
   \<and> isoMonday 28800 1735487999 \<noteq> isoMonday 28800 1735574400"
proof -
  let ?e = "\<lparr>TZ_OFFSET = Some 0, PAY_RATE = None, ADMIN_SECRET = ''s'', build = SundayBuild\<rparr>"
  have h1: "1703980800000 mod msPerDay = 0
      \<and> getUTCDay 1703980800000 = (case build ?e of SundayBuild \<Rightarrow> 0 | MondayBuild \<Rightarrow> 1)
      \<and> DayFromYear 100 \<le> Day 1703980800000 - 7
      \<and> (1703980800000::int) \<le> 1703980800000 \<and> 1703980800000 < 1703980800000 + 7 * msPerDay
      \<and> (1703980800000::int) \<le> 1704240000000 \<and> 1704240000000 < 1703980800000 + 7 * msPerDay
      \<and> 1703980800000 - msPerDay \<le> 1703980799999 \<and> (1703980799999::int) < 1703980800000"
    by (simp add: msPerDay_def getUTCDay_def WeekDay_def Day_def DayFromYear_def)
  have h2: "(1735488000 + 28800) mod 86400 = (0::int) \<and> (localDay 28800 1735488000 + 4) mod 7 = 1
      \<and> (1735488000::int) \<le> 1735574400 \<and> (1735574400::int) < 1735488000 + 7 * 86400
      \<and> (1735488000::int) \<le> 1735747200 \<and> (1735747200::int) < 1735488000 + 7 * 86400
      \<and> (1735488000::int) - 86400 \<le> 1735487999 \<and> (1735487999::int) < 1735488000"
    by (simp add: localDay_def)
  from weekKey_stable[where W = 1703980800000 and ?t1.0 = 1703980800000 and ?t2.0 = 1704240000000
      and t = 1703980799999 and e = ?e
      and V = 1735488000 and tz = 28800 and ?s1.0 = 1735574400 and ?s2.0 = 1735747200
      and s = 1735487999] h1 h2
  show ?thesis by blast
qed

section \<open>The store\<close>

lemma kvGet_putJSON: "kvGet (putJSON s k v) k' = (if k' = k then Some v else kvGet s k')"
  by (simp add: kvGet_def putJSON_def update_conv')

lemma kvGet_kvDelete: "kvGet (kvDelete s k) k' = (if k' = k then None else kvGet s k')"
  by (simp add: kvGet_def kvDelete_def delete_conv')

section \<open>Clocking in while a session is open\<close>

lemma getOpenShift_Some:
  assumes "r \<in> set (shifts d)" "user_id r = u" "end_ts r = None"
  shows "\<exists>row. getOpenShift d u = Some row"
proof -
  from assms have "r \<in> set (filter (isOpenFor u) (shifts d))" by (simp add: isOpenFor_def)
  then have "filter (isOpenFor u) (shifts d) \<noteq> []" by (metis empty_iff list.set(1))
  then show ?thesis by (auto simp: getOpenShift_def split: list.splits)
qed

text \<open>
  Claim C9.  A clock-in of a user who has an open session is refused and changes nothing.
  In \<^verbatim>\<open>db.js\<close> the user has a row without \<^verbatim>\<open>end_ts\<close>: \<^verbatim>\<open>clockIn\<close> answers
  \<^verbatim>\<open>ok: false\<close> with the already-clocked-in message and returns the database as it was.
  In the worker the open flag holds a start instant \<open>t\<close> that \<^verbatim>\<open>open?.startUtcMs\<close> accepts:
  \<^verbatim>\<open>cmdIn\<close> sends the already-clocked-in message with that start time and leaves the whole
  store, so the flag, its start time and every day record, as it was.
\<close>

theorem clockIn_while_open:
  "(r \<in> set (shifts d) \<and> user_id r = u \<and> end_ts r = None
      \<longrightarrow> clockIn tz d u nowTs = Inr (d, \<lparr>ok = False, message = AlreadyClockedInMsg\<rparr>))
   \<and> (openStart (getOpen s w) = Some t
      \<longrightarrow> cmdIn e now chat w s
            = (s, [Text chat (AlreadyClockedIn (fmtClock (t + tzOffsetHours e * 3600000)))])
          \<and> openStart (getOpen (fst (cmdIn e now chat w s)) w) = Some t)"
proof (intro conjI impI)
  assume "r \<in> set (shifts d) \<and> user_id r = u \<and> end_ts r = None"
  then obtain row where "getOpenShift d u = Some row" using getOpenShift_Some by blast
  then show "clockIn tz d u nowTs = Inr (d, \<lparr>ok = False, message = AlreadyClockedInMsg\<rparr>)"
    by (simp add: clockIn_def)
next
  assume o: "openStart (getOpen s w) = Some t"
  then show c: "cmdIn e now chat w s
            = (s, [Text chat (AlreadyClockedIn (fmtClock (t + tzOffsetHours e * 3600000)))])"
    by (simp add: cmdIn_def Let_def nowLocal_def)
  show "openStart (getOpen (fst (cmdIn e now chat w s)) w) = Some t"
    by (simp add: c o)
qed

theorem clockIn_while_open_witness:
  "clockIn 28800
      \<lparr>users = [7],
        shifts = [\<lparr>shift_id = 1, user_id = 7, start_ts = 1704067200, end_ts = None,
                   day_key = (2024, 1, 1), week_key = (2024, 1, 1)\<rparr>],
        seq = 1\<rparr> 7 1704070800
     = Inr (\<lparr>users = [7],
             shifts = [\<lparr>shift_id = 1, user_id = 7, start_ts = 1704067200, end_ts = None,
                        day_key = (2024, 1, 1), week_key = (2024, 1, 1)\<rparr>],
             seq = 1\<rparr>, \<lparr>ok = False, message = AlreadyClockedInMsg\<rparr>)
   \<and> cmdIn \<lparr>TZ_OFFSET = Some 1, PAY_RATE = None, ADMIN_SECRET = ''s'', build = SundayBuild\<rparr>
        1704070800000 5 ''7'' [(kOpen ''7'', Open 1704067200000)]
     = ([(kOpen ''7'', Open 1704067200000)],
        [Text 5 (AlreadyClockedIn (fmtClock (1704067200000
           + tzOffsetHours \<lparr>TZ_OFFSET = Some 1, PAY_RATE = None, ADMIN_SECRET = ''s'',
                             build = SundayBuild\<rparr> * 3600000)))])
   \<and> openStart (getOpen (fst (cmdIn
          \<lparr>TZ_OFFSET = Some 1, PAY_RATE = None, ADMIN_SECRET = ''s'', build = SundayBuild\<rparr>
          1704070800000 5 ''7'' [(kOpen ''7'', Open 1704067200000)])) ''7'') = Some 1704067200000"
proof -
  let ?r = "\<lparr>shift_id = 1, user_id = 7, start_ts = 1704067200, end_ts = None,
             day_key = (2024, 1, 1), week_key = (2024, 1, 1)\<rparr>"
  let ?d = "\<lparr>users = [7], shifts = [?r], seq = 1\<rparr>"
  have h1: "?r \<in> set (shifts ?d) \<and> user_id ?r = 7 \<and> end_ts ?r = None" by simp
  have h2: "openStart (getOpen [(kOpen ''7'', Open 1704067200000)] ''7'') = Some 1704067200000"
    by (simp add: openStart_def getOpen_def kvGet_def)
  from clockIn_while_open[where r = ?r and d = ?d and u = 7 and tz = 28800 and nowTs = 1704070800
      and s = "[(kOpen ''7'', Open 1704067200000)]" and w = "''7''" and t = 1704067200000
      and e = "\<lparr>TZ_OFFSET = Some 1, PAY_RATE = None, ADMIN_SECRET = ''s'', build = SundayBuild\<rparr>"
      and now = 1704070800000 and chat = 5] h1 h2
  show ?thesis by blast
qed

section \<open>What the weekly reset touches\<close>

declare deleteDays.simps [simp del]

lemma deleteDays_frame:
  "(\<And>day. k \<noteq> kDay u day) \<Longrightarrow> kvGet (deleteDays u ms endUtcMs s) k = kvGet s k"
proof (induction u ms endUtcMs s rule: deleteDays.induct)
  case (1 u ms endUtcMs s)
  show ?case
  proof (cases "ms < endUtcMs")
    case True
    have "kvGet (deleteDays u ms endUtcMs s) k
        = kvGet (deleteDays u (ms + 86400000) endUtcMs (kvDelete s (kDay u (dateKeyLocal ms)))) k"
      using True by (subst deleteDays.simps) simp
    also have "\<dots> = kvGet (kvDelete s (kDay u (dateKeyLocal ms))) k"
      using "1.IH"[OF True] "1.prems" by simp
    also have "\<dots> = kvGet s k" using "1.prems" by (simp add: kvGet_kvDelete)
    finally show ?thesis .
  next
    case False
    then show ?thesis by (subst deleteDays.simps) simp
  qed
qed

lemma deleteDays_week:
  "deleteDays u start (start + 7 * 86400000) s
   = fold (\<lambda>ms s'. kvDelete s' (kDay u (dateKeyLocal ms))) (weekDays start) s"
  by (simp add: deleteDays.simps weekDays_def add.commute)

lemma kvGet_fold_delete:
  "kvGet (fold (\<lambda>x s'. kvDelete s' (f x)) xs s) k = (if k \<in> set (map f xs) then None else kvGet s k)"
  by (induction xs arbitrary: s) (auto simp: kvGet_kvDelete)

lemma deleteWeekRange_week:
  "kvGet (deleteWeekRange u start (start + 7 * 86400000) s) k
   = (if k = kOpen u \<or> k \<in> set (map (\<lambda>ms. kDay u (dateKeyLocal ms)) (weekDays start))
      then None else kvGet s k)"
  unfolding deleteWeekRange_def deleteDays_week
  by (simp add: kvGet_kvDelete kvGet_fold_delete)

lemma deleteWeekRange_frame:
  "k \<noteq> kOpen u \<Longrightarrow> (\<And>day. k \<noteq> kDay u day)
   \<Longrightarrow> kvGet (deleteWeekRange u startUtcMs endUtcMs s) k = kvGet s k"
  by (simp add: deleteWeekRange_def kvGet_kvDelete deleteDays_frame)


text \<open>
  Claim C7, as the code has it.  The reset step of the rollover, \<^verbatim>\<open>deleteWeekRange\<close> over
  a week window, deletes the seven day records of the window and always deletes the open
  flag of the user, whenever the open session began; every other key keeps its value.
  \<^verbatim>\<open>resetWeek\<close> of \<^verbatim>\<open>db.js\<close> deletes the rows of the user whose \<^verbatim>\<open>week_key\<close> is the week
  of \<open>nowTs\<close>, among them an open row of that week, keeps every other row, and returns the
  number of rows deleted.
\<close>

theorem week_reset_effect:
  "(\<forall>k. kvGet (deleteWeekRange u start (start + 7 * 86400000) s) k
        = (if k = kOpen u \<or> k \<in> set (map (\<lambda>ms. kDay u (dateKeyLocal ms)) (weekDays start))
           then None else kvGet s k))
   \<and> (\<forall>r. r \<in> set (shifts (fst (resetWeek tz d v nowTs)))
          \<longleftrightarrow> r \<in> set (shifts d) \<and> \<not> (user_id r = v \<and> week_key r = isoMonday tz nowTs))
   \<and> length (shifts (fst (resetWeek tz d v nowTs))) + snd (resetWeek tz d v nowTs)
       = length (shifts d)
   \<and> users (fst (resetWeek tz d v nowTs)) = users d
   \<and> seq (fst (resetWeek tz d v nowTs)) = seq d"
proof (intro conjI allI)
  fix k
  show "kvGet (deleteWeekRange u start (start + 7 * 86400000) s) k
        = (if k = kOpen u \<or> k \<in> set (map (\<lambda>ms. kDay u (dateKeyLocal ms)) (weekDays start))
           then None else kvGet s k)"
    by (rule deleteWeekRange_week)
next
  fix r
  show "r \<in> set (shifts (fst (resetWeek tz d v nowTs)))
          \<longleftrightarrow> r \<in> set (shifts d) \<and> \<not> (user_id r = v \<and> week_key r = isoMonday tz nowTs)"
    by (auto simp: resetWeek_def Let_def)
next
  show "length (shifts (fst (resetWeek tz d v nowTs))) + snd (resetWeek tz d v nowTs)
       = length (shifts d)"
    using sum_length_filter_compl[of "\<lambda>r. user_id r = v \<and> week_key r = isoMonday tz nowTs" "shifts d"]
    by (simp add: resetWeek_def Let_def)
qed (simp_all add: resetWeek_def Let_def)

lemma deleteWeekRange_open: "kvGet (deleteWeekRange u a b s) (kOpen u) = None"
  by (simp add: deleteWeekRange_def kvGet_kvDelete)

lemma window_2024_01_08:
  "prevLocalWeekWindow
      \<lparr>TZ_OFFSET = Some 0, PAY_RATE = None, ADMIN_SECRET = ''s'', build = MondayBuild\<rparr>
      1704708000000 = (1704067200000, 1704672000000)"
  by code_simp

text \<open>
  Claim C7 as stated fails in the worker: a user clocks in on Monday 8 January 2024 at
  09:00, in the new week; the rollover of the week of 1 January runs at 10:00 (Monday
  build, offset 0) and deletes the open flag of that session.
\<close>

theorem week_reset_open_flag_counterexample:
  "prevLocalWeekWindow
      \<lparr>TZ_OFFSET = Some 0, PAY_RATE = None, ADMIN_SECRET = ''s'', build = MondayBuild\<rparr>
      1704708000000 = (1704067200000, 1704672000000)
   \<and> kvGet [(kMeta ''7'', Meta [5]), (kOpen ''7'', Open 1704704400000),
             (kDay ''7'' (2024, 1, 8), DayRec [\<lparr>inUtcMs = 1704704400000, outUtcMs = None\<rparr>] 0)]
        (kOpen ''7'') = Some (Open 1704704400000)
   \<and> kvGet (fst (final (runWeekly
          \<lparr>TZ_OFFSET = Some 0, PAY_RATE = None, ADMIN_SECRET = ''s'', build = MondayBuild\<rparr>
          (\<lambda>m. False) 1704708000000
          ([(kMeta ''7'', Meta [5]), (kOpen ''7'', Open 1704704400000),
            (kDay ''7'' (2024, 1, 8), DayRec [\<lparr>inUtcMs = 1704704400000, outUtcMs = None\<rparr>] 0)],
           [])))) (kOpen ''7'') = None"
  by (simp add: window_2024_01_08 runWeekly_def nowLocal_def tzOffsetHours_def listMeta_def
      weeklyUser_def getChats_def
      kvGet_def[of "[(kMeta ''7'', Meta [5]), (kOpen ''7'', Open 1704704400000),
             (kDay ''7'' (2024, 1, 8), DayRec [\<lparr>inUtcMs = 1704704400000, outUtcMs = None\<rparr>] 0)]"]
      Let_def deleteWeekRange_open)

section \<open>A user without registered chats in the weekly run\<close>

lemma weeklyUser_skip:
  "getChats (fst st) u = [] \<Longrightarrow> weeklyUser e fails utcMs start end u st = Returned st"
  by (cases st) (simp add: weeklyUser_def)

lemma weeklyUser_frame:
  assumes "k \<noteq> kOpen v" "\<And>day. k \<noteq> kDay v day"
  shows "kvGet (fst (final (weeklyUser e fails utcMs start end v st))) k = kvGet (fst st) k"
  using assms
  by (cases st)
     (auto simp: weeklyUser_def Let_def deleteWeekRange_frame split: outcome.splits)

lemma weeklyLoop_frame:
  assumes "getChats (fst st) u = []"
    and "k = kOpen u \<or> k = kMeta u \<or> (\<exists>day. k = kDay u day)"
  shows "kvGet (fst (final (weeklyLoop e fails utcMs start end us st))) k = kvGet (fst st) k"
  using assms
proof (induction us arbitrary: st)
  case Nil
  then show ?case by simp
next
  case (Cons v us)
  show ?case
  proof (cases "v = u")
    case True
    with Cons.prems(1) have "weeklyUser e fails utcMs start end v st = Returned st"
      by (simp add: weeklyUser_skip)
    then show ?thesis using Cons.IH[OF Cons.prems] by simp
  next
    case False
    have fr: "\<And>k'. k' = kOpen u \<or> k' = kMeta u \<or> (\<exists>day. k' = kDay u day) \<Longrightarrow>
        kvGet (fst (final (weeklyUser e fails utcMs start end v st))) k' = kvGet (fst st) k'"
      using False by (intro weeklyUser_frame) auto
    show ?thesis
    proof (cases "weeklyUser e fails utcMs start end v st")
      case (Thrown st')
      with fr[OF Cons.prems(2)] show ?thesis by simp
    next
      case (Returned st')
      with fr have st': "\<And>k'. k' = kOpen u \<or> k' = kMeta u \<or> (\<exists>day. k' = kDay u day) \<Longrightarrow>
          kvGet (fst st') k' = kvGet (fst st) k'" by simp
      then have "getChats (fst st') u = []" using Cons.prems(1) by (simp add: getChats_def)
      from Cons.IH[OF this Cons.prems(2)] st'[OF Cons.prems(2)] Returned show ?thesis by simp
    qed
  qed
qed

text \<open>
  Claim C10.  When the \<^verbatim>\<open>meta:\<close> record of a user is there and lists no chat, the loop of
  \<^verbatim>\<open>runWeekly\<close> passes the user by: the body returns at once with the store and the
  messages as they were, and after the whole run (whether it returns or an exception ends
  it) the open flag of the user and every one of the user's day records are what they were.
\<close>

theorem runWeekly_skips_user_without_chats:
  "kvGet s (kMeta u) = Some (Meta [])
   \<longrightarrow> weeklyUser e fails utcMs start end u (s, out) = Returned (s, out)
     \<and> u \<in> set (listMeta s)
     \<and> kvGet (fst (final (runWeekly e fails now (s, out)))) (kOpen u) = kvGet s (kOpen u)
     \<and> (\<forall>day. kvGet (fst (final (runWeekly e fails now (s, out)))) (kDay u day)
               = kvGet s (kDay u day))"
proof (intro impI conjI allI)
  assume m: "kvGet s (kMeta u) = Some (Meta [])"
  then have c: "getChats (fst (s, out)) u = []" by (simp add: getChats_def)
  then show "weeklyUser e fails utcMs start end u (s, out) = Returned (s, out)"
    by (rule weeklyUser_skip)
  have "(kMeta u, Meta []) \<in> set s" using m by (auto simp: kvGet_def dest: map_of_SomeD)
  then have "u \<in> set (metaKeys s)"
    by (induction s rule: metaKeys.induct) auto
  then show "u \<in> set (listMeta s)" by (simp add: listMeta_def)
  have "\<And>a b c us. kvGet (fst (final (weeklyLoop e fails a b c us (s, out)))) (kOpen u)
      = kvGet s (kOpen u)"
    using weeklyLoop_frame[OF c, of "kOpen u"] by simp
  then show "kvGet (fst (final (runWeekly e fails now (s, out)))) (kOpen u) = kvGet s (kOpen u)"
    by (simp add: runWeekly_def Let_def split: prod.splits)
  fix day
  have "\<exists>day'. kDay u day = kDay u day'" by (rule exI[of _ day]) simp
  then have "\<And>a b c us. kvGet (fst (final (weeklyLoop e fails a b c us (s, out)))) (kDay u day)
      = kvGet s (kDay u day)"
    using weeklyLoop_frame[OF c, of "kDay u day"] by (simp del: key.inject)
  then show "kvGet (fst (final (runWeekly e fails now (s, out)))) (kDay u day) = kvGet s (kDay u day)"
    by (simp add: runWeekly_def Let_def split: prod.splits)
qed


theorem runWeekly_skips_user_without_chats_witness:
  "weeklyUser \<lparr>TZ_OFFSET = Some 0, PAY_RATE = None, ADMIN_SECRET = ''s'', build = MondayBuild\<rparr>
      (\<lambda>m. False) 1704708000000 1704067200000 1704672000000 ''7''
      ([(kMeta ''7'', Meta []), (kOpen ''7'', Open 1704445200000),
        (kDay ''7'' (2024, 1, 5), DayRec [\<lparr>inUtcMs = 1704445200000, outUtcMs = None\<rparr>] 0),
        (kMeta ''8'', Meta [5]), (kDay ''8'' (2024, 1, 5), DayRec [] 3600000)], [])
    = Returned
      ([(kMeta ''7'', Meta []), (kOpen ''7'', Open 1704445200000),
        (kDay ''7'' (2024, 1, 5), DayRec [\<lparr>inUtcMs = 1704445200000, outUtcMs = None\<rparr>] 0),
        (kMeta ''8'', Meta [5]), (kDay ''8'' (2024, 1, 5), DayRec [] 3600000)], [])
   \<and> ''7'' \<in> set (listMeta
        [(kMeta ''7'', Meta []), (kOpen ''7'', Open 1704445200000),
         (kDay ''7'' (2024, 1, 5), DayRec [\<lparr>inUtcMs = 1704445200000, outUtcMs = None\<rparr>] 0),
         (kMeta ''8'', Meta [5]), (kDay ''8'' (2024, 1, 5), DayRec [] 3600000)])
   \<and> kvGet (fst (final (runWeekly
          \<lparr>TZ_OFFSET = Some 0, PAY_RATE = None, ADMIN_SECRET = ''s'', build = MondayBuild\<rparr>
          (\<lambda>m. False) 1704708000000
          ([(kMeta ''7'', Meta []), (kOpen ''7'', Open 1704445200000),
            (kDay ''7'' (2024, 1, 5), DayRec [\<lparr>inUtcMs = 1704445200000, outUtcMs = None\<rparr>] 0),
            (kMeta ''8'', Meta [5]), (kDay ''8'' (2024, 1, 5), DayRec [] 3600000)], []))))
        (kOpen ''7'') = Some (Open 1704445200000)
   \<and> kvGet (fst (final (runWeekly
          \<lparr>TZ_OFFSET = Some 0, PAY_RATE = None, ADMIN_SECRET = ''s'', build = MondayBuild\<rparr>
          (\<lambda>m. False) 1704708000000
          ([(kMeta ''7'', Meta []), (kOpen ''7'', Open 1704445200000),
            (kDay ''7'' (2024, 1, 5), DayRec [\<lparr>inUtcMs = 1704445200000, outUtcMs = None\<rparr>] 0),
            (kMeta ''8'', Meta [5]), (kDay ''8'' (2024, 1, 5), DayRec [] 3600000)], []))))
        (kDay ''7'' (2024, 1, 5))
     = Some (DayRec [\<lparr>inUtcMs = 1704445200000, outUtcMs = None\<rparr>] 0)"
proof -
  let ?s = "[(kMeta ''7'', Meta []), (kOpen ''7'', Open 1704445200000),
        (kDay ''7'' (2024, 1, 5), DayRec [\<lparr>inUtcMs = 1704445200000, outUtcMs = None\<rparr>] 0),
        (kMeta ''8'', Meta [5]), (kDay ''8'' (2024, 1, 5), DayRec [] 3600000)]"
  have h: "kvGet ?s (kMeta ''7'') = Some (Meta [])" by (simp add: kvGet_def)
  have o: "kvGet ?s (kOpen ''7'') = Some (Open 1704445200000)" by (simp add: kvGet_def)
  have d: "kvGet ?s (kDay ''7'' (2024, 1, 5))
      = Some (DayRec [\<lparr>inUtcMs = 1704445200000, outUtcMs = None\<rparr>] 0)" by (simp add: kvGet_def)
  from runWeekly_skips_user_without_chats[where s = ?s and u = "''7''" and out = "[]"
      and e = "\<lparr>TZ_OFFSET = Some 0, PAY_RATE = None, ADMIN_SECRET = ''s'', build = MondayBuild\<rparr>"
      and fails = "\<lambda>m. False" and utcMs = 1704708000000 and start = 1704067200000
      and ?end = 1704672000000 and now = 1704708000000] h
  show ?thesis by (simp only: o d)
qed

section \<open>Clocking out\<close>

lemma fmtHM_nonneg: "0 \<le> fst (fmtHM ms) \<and> 0 \<le> snd (fmtHM ms)"
  by (simp add: fmtHM_def Let_def pos_imp_zdiv_nonneg_iff)

lemma fmtHM_nonpos: "ms \<le> 0 \<Longrightarrow> fmtHM ms = (0, 0)"
proof -
  assume "ms \<le> 0"
  then have "ms div 1000 \<le> 0" using div_lo[of 1000 ms] by linarith
  then have "max 0 (ms div 1000) = 0" by simp
  then show ?thesis by (simp add: fmtHM_def Let_def)
qed

lemma fold_pick_mem:
  "fold (\<lambda>x best. if shift_id best < shift_id x then x else best) rs r \<in> set (r # rs)"
proof (induction rs arbitrary: r)
  case Nil
  then show ?case by simp
next
  case (Cons a rs)
  show ?case
    using Cons.IH[of a] Cons.IH[of r] by auto
qed

lemma getOpenShift_mem:
  assumes "getOpenShift d u = Some r"
  shows "r \<in> set (shifts d) \<and> user_id r = u \<and> end_ts r = None"
proof -
  from assms obtain x xs where f: "filter (isOpenFor u) (shifts d) = x # xs"
    and r: "r = fold (\<lambda>x best. if shift_id best < shift_id x then x else best) xs x"
    by (auto simp: getOpenShift_def split: list.splits)
  from r have "r \<in> set (x # xs)" using fold_pick_mem[of xs x] by simp
  with f have "r \<in> set (filter (isOpenFor u) (shifts d))" by simp
  then show ?thesis by (simp add: isOpenFor_def)
qed

lemma cmdOut_open:
  assumes "openStart (getOpen s u) = Some t"
  shows "cmdOut e now chat u s =
     (kvDelete (putJSON s (kDay u (dateKeyLocal (snd (nowLocal e now))))
         (DayRec (closeLastOpen (fst (getDayRec s (kDay u (dateKeyLocal (snd (nowLocal e now)))))) now)
            (dayTotalMs s u (dateKeyLocal (snd (nowLocal e now))) + (now - t))))
        (kOpen u),
      [Text chat (ClockedOut (fmtClock (snd (nowLocal e now))) (fmtHM (now - t))
         (fmtHM (dayTotalMs s u (dateKeyLocal (snd (nowLocal e now))) + (now - t))))])"
  using assms
  by (simp add: cmdOut_def Let_def nowLocal_def dayTotalMs_def split: prod.splits)

text \<open>
  Claim C4, as the code has it.  With an open session started at \<open>t\<close>, the worker's
  \<^verbatim>\<open>cmdOut\<close> reports the session as \<^verbatim>\<open>fmtHM(now - t)\<close>, which is never negative and is
  \<open>0h 0m\<close> when \<open>now \<le> t\<close>, but adds the difference \<open>now - t\<close> itself to \<^verbatim>\<open>totalMs\<close> of the
  day of the clock-out, and removes the open flag.  \<^verbatim>\<open>clockOut\<close> of \<^verbatim>\<open>db.js\<close> reports
  \<^verbatim>\<open>durationHours\<close>, never negative, and stores \<open>nowTs\<close> as the end of the open row, whose
  share of the summed hours is then \<open>(nowTs - start) / 3600\<close>; the two agree when the clock
  has not gone back.
\<close>

theorem clockOut_duration:
  "(openStart (getOpen s u) = Some t
      \<longrightarrow> snd (cmdOut e now chat u s)
            = [Text chat (ClockedOut (fmtClock (snd (nowLocal e now))) (fmtHM (now - t))
                 (fmtHM (dayTotalMs s u (dateKeyLocal (snd (nowLocal e now))) + (now - t))))]
          \<and> dayTotalMs (fst (cmdOut e now chat u s)) u (dateKeyLocal (snd (nowLocal e now)))
            = dayTotalMs s u (dateKeyLocal (snd (nowLocal e now))) + (now - t)
          \<and> getOpen (fst (cmdOut e now chat u s)) u = None
          \<and> 0 \<le> fst (fmtHM (now - t)) \<and> 0 \<le> snd (fmtHM (now - t))
          \<and> (now \<le> t \<longrightarrow> fmtHM (now - t) = (0, 0)))
   \<and> (getOpenShift d v = Some r
      \<longrightarrow> message (snd (clockOut tz d v nowTs))
            = ClockedOutAt (formatHHmm tz nowTs) (durationHours (start_ts r) nowTs)
          \<and> 0 \<le> durationHours (start_ts r) nowTs
          \<and> r\<lparr>end_ts := Some nowTs\<rparr> \<in> set (shifts (fst (clockOut tz d v nowTs)))
          \<and> closedHours (r\<lparr>end_ts := Some nowTs\<rparr>) = real_of_int (nowTs - start_ts r) / 3600
          \<and> (start_ts r \<le> nowTs
              \<longrightarrow> durationHours (start_ts r) nowTs = closedHours (r\<lparr>end_ts := Some nowTs\<rparr>)))"
proof (intro conjI impI)
  assume o: "openStart (getOpen s u) = Some t"
  note c = cmdOut_open[OF o, of e now chat]
  show "snd (cmdOut e now chat u s)
            = [Text chat (ClockedOut (fmtClock (snd (nowLocal e now))) (fmtHM (now - t))
                 (fmtHM (dayTotalMs s u (dateKeyLocal (snd (nowLocal e now))) + (now - t))))]"
    by (simp add: c)
  show "dayTotalMs (fst (cmdOut e now chat u s)) u (dateKeyLocal (snd (nowLocal e now)))
            = dayTotalMs s u (dateKeyLocal (snd (nowLocal e now))) + (now - t)"
    by (simp add: c dayTotalMs_def getDayRec_def kvGet_kvDelete kvGet_putJSON)
  show "getOpen (fst (cmdOut e now chat u s)) u = None"
    by (simp add: c getOpen_def kvGet_kvDelete)
  show "0 \<le> fst (fmtHM (now - t))" "0 \<le> snd (fmtHM (now - t))"
    using fmtHM_nonneg by simp_all
  assume "now \<le> t"
  then show "fmtHM (now - t) = (0, 0)" by (simp add: fmtHM_nonpos)
next
  assume g: "getOpenShift d v = Some r"
  then have mem: "r \<in> set (shifts d)" using getOpenShift_mem by blast
  show "message (snd (clockOut tz d v nowTs))
            = ClockedOutAt (formatHHmm tz nowTs) (durationHours (start_ts r) nowTs)"
    by (simp add: clockOut_def g)
  show "0 \<le> durationHours (start_ts r) nowTs" by (simp add: durationHours_def)
  show "r\<lparr>end_ts := Some nowTs\<rparr> \<in> set (shifts (fst (clockOut tz d v nowTs)))"
    using mem by (force simp: clockOut_def g endShift_def)
  show "closedHours (r\<lparr>end_ts := Some nowTs\<rparr>) = real_of_int (nowTs - start_ts r) / 3600"
    by (simp add: closedHours_def)
  assume "start_ts r \<le> nowTs"
  then show "durationHours (start_ts r) nowTs = closedHours (r\<lparr>end_ts := Some nowTs\<rparr>)"
    by (simp add: durationHours_def closedHours_def)
qed


theorem clockOut_duration_witness:
  "dayTotalMs (fst (cmdOut
        \<lparr>TZ_OFFSET = Some 0, PAY_RATE = None, ADMIN_SECRET = ''s'', build = SundayBuild\<rparr>
        1704114000000 5 ''7''
        [(kOpen ''7'', Open 1704110400000),
         (kDay ''7'' (2024, 1, 1), DayRec [\<lparr>inUtcMs = 1704110400000, outUtcMs = None\<rparr>] 0)]))
      ''7''
      (dateKeyLocal (snd (nowLocal
        \<lparr>TZ_OFFSET = Some 0, PAY_RATE = None, ADMIN_SECRET = ''s'', build = SundayBuild\<rparr>
        1704114000000)))
    = dayTotalMs
        [(kOpen ''7'', Open 1704110400000),
         (kDay ''7'' (2024, 1, 1), DayRec [\<lparr>inUtcMs = 1704110400000, outUtcMs = None\<rparr>] 0)]
        ''7''
        (dateKeyLocal (snd (nowLocal
          \<lparr>TZ_OFFSET = Some 0, PAY_RATE = None, ADMIN_SECRET = ''s'', build = SundayBuild\<rparr>
          1704114000000)))
      + (1704114000000 - 1704110400000)
   \<and> getOpen (fst (cmdOut
        \<lparr>TZ_OFFSET = Some 0, PAY_RATE = None, ADMIN_SECRET = ''s'', build = SundayBuild\<rparr>
        1704114000000 5 ''7''
        [(kOpen ''7'', Open 1704110400000),
         (kDay ''7'' (2024, 1, 1), DayRec [\<lparr>inUtcMs = 1704110400000, outUtcMs = None\<rparr>] 0)]))
      ''7'' = None
   \<and> message (snd (clockOut 28800
        \<lparr>users = [7],
          shifts = [\<lparr>shift_id = 1, user_id = 7, start_ts = 1704110400, end_ts = None,
                     day_key = (2024, 1, 1), week_key = (2024, 1, 1)\<rparr>],
          seq = 1\<rparr> 7 1704114000))
     = ClockedOutAt (formatHHmm 28800 1704114000)
         (durationHours
           (start_ts \<lparr>shift_id = 1, user_id = 7, start_ts = 1704110400, end_ts = None,
                      day_key = (2024, 1, 1), week_key = (2024, 1, 1)\<rparr>) 1704114000)"
proof -
  let ?e = "\<lparr>TZ_OFFSET = Some 0, PAY_RATE = None, ADMIN_SECRET = ''s'', build = SundayBuild\<rparr>"
  let ?s = "[(kOpen ''7'', Open 1704110400000),
         (kDay ''7'' (2024, 1, 1), DayRec [\<lparr>inUtcMs = 1704110400000, outUtcMs = None\<rparr>] 0)]"
  let ?r = "\<lparr>shift_id = 1, user_id = 7, start_ts = 1704110400, end_ts = None,
                     day_key = (2024, 1, 1), week_key = (2024, 1, 1)\<rparr>"
  let ?d = "\<lparr>users = [7], shifts = [?r], seq = 1\<rparr>"
  have h1: "openStart (getOpen ?s ''7'') = Some 1704110400000"
    by (simp add: openStart_def getOpen_def kvGet_def)
  have h2: "getOpenShift ?d 7 = Some ?r"
    by (simp add: getOpenShift_def isOpenFor_def)
  from clockOut_duration[where s = ?s and u = "''7''" and t = 1704110400000 and e = ?e
      and now = 1704114000000 and chat = 5 and d = ?d and v = 7 and r = ?r and tz = 28800
      and nowTs = 1704114000] h1 h2
  show ?thesis by blast
qed

lemma dateKey_2024_01_01: "dateKeyLocal 1704110340000 = (2024, 1, 1)"
  by code_simp

text \<open>
  Claim C4 as stated fails: a clock-out whose clock reads one minute before the start of
  the open session takes a minute off the stored total of the day.
\<close>

theorem clockOut_total_counterexample:
  "dayTotalMs
      [(kOpen ''7'', Open 1704110400000),
       (kDay ''7'' (2024, 1, 1), DayRec [\<lparr>inUtcMs = 1704110400000, outUtcMs = None\<rparr>] 3600000)]
      ''7'' (2024, 1, 1) = 3600000
   \<and> dayTotalMs (fst (cmdOut
        \<lparr>TZ_OFFSET = Some 0, PAY_RATE = None, ADMIN_SECRET = ''s'', build = SundayBuild\<rparr>
        1704110340000 5 ''7''
        [(kOpen ''7'', Open 1704110400000),
         (kDay ''7'' (2024, 1, 1), DayRec [\<lparr>inUtcMs = 1704110400000, outUtcMs = None\<rparr>] 3600000)]))
      ''7'' (2024, 1, 1) = 3540000"
proof -
  let ?e = "\<lparr>TZ_OFFSET = Some 0, PAY_RATE = None, ADMIN_SECRET = ''s'', build = SundayBuild\<rparr>"
  let ?s = "[(kOpen ''7'', Open 1704110400000),
       (kDay ''7'' (2024, 1, 1), DayRec [\<lparr>inUtcMs = 1704110400000, outUtcMs = None\<rparr>] 3600000)]"
  have h1: "openStart (getOpen ?s ''7'') = Some 1704110400000"
    by (simp add: openStart_def getOpen_def kvGet_def)
  have k: "dateKeyLocal (snd (nowLocal ?e 1704110340000)) = (2024, 1, 1)"
    by (simp add: nowLocal_def tzOffsetHours_def dateKey_2024_01_01)
  have t: "dayTotalMs ?s ''7'' (2024, 1, 1) = 3600000"
    by (simp add: dayTotalMs_def getDayRec_def kvGet_def)
  show ?thesis
    unfolding cmdOut_open[OF h1] k t
    by (simp add: dayTotalMs_def getDayRec_def kvGet_kvDelete kvGet_putJSON)
qed

section \<open>Hours of today with a session running\<close>




















section \<open>A failed delivery during the weekly run\<close>











section \<open>Rates\<close>

lemma setUserRate_ok_iff:
  "(\<exists>r s'. setUserRate s u v = Inr (r, s')) \<longleftrightarrow> (\<exists>x. v = Finite x \<and> 0 < x)"
  by (cases v) (auto simp: setUserRate_def)

lemma setUserRate_fails_iff:
  "setUserRate s u v = Inl bad_rate \<longleftrightarrow> \<not> (\<exists>x. v = Finite x \<and> 0 < x)"
  by (cases v) (auto simp: setUserRate_def)

text \<open>
  Claim C8, as the code has it.  \<^verbatim>\<open>userRate\<close> returns the stored override whenever the
  \<^verbatim>\<open>cfg:\<close> record of the user has a rate (a finite number, of either sign), and the
  global default otherwise.  \<^verbatim>\<open>setUserRate\<close> throws \<^verbatim>\<open>bad_rate\<close> exactly when the value
  is not a finite positive number, and then nothing is written; otherwise it stores the
  value, which is what \<^verbatim>\<open>userRate\<close> returns for that user afterwards, the rate of every
  other user being what it was.
\<close>

theorem rate_resolution:
  "(getCfg s u = Some r \<longrightarrow> userRate e s u = r)
   \<and> (getCfg s u = None \<longrightarrow> userRate e s u = rate e)
   \<and> (setUserRate s u v = Inl bad_rate \<longleftrightarrow> \<not> (\<exists>x. v = Finite x \<and> 0 < x))
   \<and> ((\<exists>r' s'. setUserRate s u v = Inr (r', s')) \<longleftrightarrow> (\<exists>x. v = Finite x \<and> 0 < x))
   \<and> (0 < x \<longrightarrow> setUserRate s u (Finite x) = Inr (x, putJSON s (kCfg u) (Cfg (Some x)))
                \<and> userRate e (putJSON s (kCfg u) (Cfg (Some x))) u = x
                \<and> (w \<noteq> u \<longrightarrow> userRate e (putJSON s (kCfg u) (Cfg (Some x))) w = userRate e s w))"
proof (intro conjI impI)
  show "setUserRate s u v = Inl bad_rate \<longleftrightarrow> \<not> (\<exists>x. v = Finite x \<and> 0 < x)"
    by (rule setUserRate_fails_iff)
  show "(\<exists>r' s'. setUserRate s u v = Inr (r', s')) \<longleftrightarrow> (\<exists>x. v = Finite x \<and> 0 < x)"
    by (rule setUserRate_ok_iff)
qed (simp_all add: userRate_def setUserRate_def getCfg_def kvGet_putJSON)

theorem rate_resolution_witness:
  "userRate \<lparr>TZ_OFFSET = Some 0, PAY_RATE = None, ADMIN_SECRET = ''s'', build = SundayBuild\<rparr>
      [(kCfg ''7'', Cfg (Some 3))] ''7'' = 3
   \<and> userRate \<lparr>TZ_OFFSET = Some 0, PAY_RATE = None, ADMIN_SECRET = ''s'', build = SundayBuild\<rparr>
      [(kCfg ''7'', Cfg (Some 3))] ''8''
     = rate \<lparr>TZ_OFFSET = Some 0, PAY_RATE = None, ADMIN_SECRET = ''s'', build = SundayBuild\<rparr>
   \<and> setUserRate [] ''7'' (Finite 3) = Inr (3, putJSON [] (kCfg ''7'') (Cfg (Some 3)))
   \<and> setUserRate [] ''7'' (Finite 0) = Inl bad_rate
   \<and> setUserRate [] ''7'' NaN = Inl bad_rate"
proof -
  let ?e = "\<lparr>TZ_OFFSET = Some 0, PAY_RATE = None, ADMIN_SECRET = ''s'', build = SundayBuild\<rparr>"
  let ?s = "[(kCfg ''7'', Cfg (Some 3))]"
  have h1: "getCfg ?s ''7'' = Some 3" by (simp add: getCfg_def kvGet_def)
  have h2: "getCfg ?s ''8'' = None" by (simp add: getCfg_def kvGet_def)
  have h3: "(0::real) < 3" by simp
  have h4: "\<not> (\<exists>x. Finite 0 = Finite x \<and> 0 < x)" by simp
  have h5: "\<not> (\<exists>x. NaN = Finite x \<and> 0 < x)" by simp
  from rate_resolution[where s = ?s and u = "''7''" and r = 3 and e = ?e] h1
  have a: "userRate ?e ?s ''7'' = 3" by blast
  from rate_resolution[where s = ?s and u = "''8''" and e = ?e] h2
  have b: "userRate ?e ?s ''8'' = rate ?e" by blast
  from rate_resolution[where s = "[]" and u = "''7''" and x = 3] h3
  have c: "setUserRate [] ''7'' (Finite 3) = Inr (3, putJSON [] (kCfg ''7'') (Cfg (Some 3)))"
    by blast
  from rate_resolution[where s = "[]" and u = "''7''" and v = "Finite 0"] h4
  have d: "setUserRate [] ''7'' (Finite 0) = Inl bad_rate" by blast
  from rate_resolution[where s = "[]" and u = "''7''" and v = NaN] h5
  have e: "setUserRate [] ''7'' NaN = Inl bad_rate" by blast
  from a b c d e show ?thesis by blast
qed

text \<open>
  Claim C8 as stated fails: with a stored override of \<open>-1\<close>, which is present and finite
  but not positive, \<^verbatim>\<open>userRate\<close> returns \<open>-1\<close> and not the default rate of 2.5.
\<close>

theorem userRate_negative_counterexample:
  "userRate \<lparr>TZ_OFFSET = Some 0, PAY_RATE = None, ADMIN_SECRET = ''s'', build = SundayBuild\<rparr>
      [(kCfg ''7'', Cfg (Some (- 1)))] ''7'' = - 1
   \<and> rate \<lparr>TZ_OFFSET = Some 0, PAY_RATE = None, ADMIN_SECRET = ''s'', build = SundayBuild\<rparr> = 2.5"
  by (simp add: userRate_def getCfg_def kvGet_def rate_def)

section \<open>Running the weekly job twice\<close>

lemma weeklyLoop_lock_frame:
  "kvGet (fst (final (weeklyLoop e fails utcMs start end us st))) (weeklylock day)
   = kvGet (fst st) (weeklylock day)"
proof (induction us arbitrary: st)
  case Nil
  then show ?case by simp
next
  case (Cons v us)
  have fr: "kvGet (fst (final (weeklyUser e fails utcMs start end v st))) (weeklylock day)
      = kvGet (fst st) (weeklylock day)"
    by (intro weeklyUser_frame) auto
  show ?case
  proof (cases "weeklyUser e fails utcMs start end v st")
    case (Thrown st')
    with fr show ?thesis by simp
  next
    case (Returned st')
    with fr Cons.IH[of st'] show ?thesis by simp
  qed
qed

text \<open>
  The cron path is protected: when \<^verbatim>\<open>scheduled\<close> finds no lock and runs the job, a second
  call for the same week within the three hours of the lock returns at once, with the
  store and the messages as the first call left them.
\<close>

lemma scheduled_twice:
  assumes fresh: "kvGetAt now s
        (weeklylock (dateKeyLocal (fst (prevLocalWeekWindow e (snd (nowLocal e now)))))) = None"
    and same: "dateKeyLocal (fst (prevLocalWeekWindow e (snd (nowLocal e now'))))
             = dateKeyLocal (fst (prevLocalWeekWindow e (snd (nowLocal e now))))"
    and soon: "now' < now + 3 * 3600 * 1000"
  shows "scheduled e fails' now' (final (scheduled e fails now (s, out)))
       = Returned (final (scheduled e fails now (s, out)))"
proof -
  let ?k = "weeklylock (dateKeyLocal (fst (prevLocalWeekWindow e (snd (nowLocal e now)))))"
  let ?s1 = "putJSON s ?k (Lock (now + 3 * 3600 * 1000))"
  obtain a b where w: "prevLocalWeekWindow e (snd (nowLocal e now)) = (a, b)"
    by (cases "prevLocalWeekWindow e (snd (nowLocal e now))") auto
  obtain a' b' where w': "prevLocalWeekWindow e (snd (nowLocal e now')) = (a', b')"
    by (cases "prevLocalWeekWindow e (snd (nowLocal e now'))") auto
  have first: "scheduled e fails now (s, out) = runWeekly e fails now (?s1, out)"
    using fresh w by (simp add: scheduled_def Let_def nowLocal_def)
  obtain s2 out2 where fin: "final (runWeekly e fails now (?s1, out)) = (s2, out2)"
    by (cases "final (runWeekly e fails now (?s1, out))") auto
  have "kvGet (fst (final (runWeekly e fails now (?s1, out)))) ?k = kvGet ?s1 ?k"
    by (simp add: runWeekly_def Let_def weeklyLoop_lock_frame split: prod.splits)
  with fin have "kvGet s2 ?k = Some (Lock (now + 3 * 3600 * 1000))"
    by (simp add: kvGet_putJSON)
  then have held: "kvGetAt now' s2 ?k = Some (Lock (now + 3 * 3600 * 1000))"
    using soon by (simp add: kvGetAt_def kvGet_def)
  have "scheduled e fails' now' (s2, out2) = Returned (s2, out2)"
    using held same w w' by (simp add: scheduled_def Let_def nowLocal_def)
  then show ?thesis by (simp only: first fin)
qed

lemma window_2024_01_08_later:
  "prevLocalWeekWindow
      \<lparr>TZ_OFFSET = Some 0, PAY_RATE = None, ADMIN_SECRET = ''s'', build = MondayBuild\<rparr>
      1704708001000 = (1704067200000, 1704672000000)"
  by code_simp

lemma dateKey_2024_01_01_midnight: "dateKeyLocal 1704067200000 = (2024, 1, 1)"
  by code_simp

lemma deleteDays_absent:
  "(\<And>day. kDay u day \<notin> fst ` set s) \<Longrightarrow> deleteDays u ms endUtcMs s = s"
proof (induction u ms endUtcMs s rule: deleteDays.induct)
  case (1 u ms endUtcMs s)
  show ?case
  proof (cases "ms < endUtcMs")
    case True
    have d: "kvDelete s (kDay u (dateKeyLocal ms)) = s"
      using "1.prems" by (simp add: kvDelete_def)
    have "deleteDays u ms endUtcMs s
        = deleteDays u (ms + 86400000) endUtcMs (kvDelete s (kDay u (dateKeyLocal ms)))"
      using True by (subst deleteDays.simps) simp
    also have "\<dots> = kvDelete s (kDay u (dateKeyLocal ms))"
      using "1.IH"[OF True] "1.prems" d by simp
    finally show ?thesis using d by simp
  next
    case False
    then show ?thesis by (subst deleteDays.simps) simp
  qed
qed

lemma deleteWeekRange_absent:
  "kOpen u \<notin> fst ` set s \<Longrightarrow> (\<And>day. kDay u day \<notin> fst ` set s)
   \<Longrightarrow> deleteWeekRange u a b s = s"
  by (simp add: deleteWeekRange_def deleteDays_absent kvDelete_def)

lemma deleteWeekRange_meta_lock:
  "deleteWeekRange ''7'' a b [(kMeta ''7'', Meta [5]), (weeklylock (2024, 1, 1), Lock 1704718800000)]
   = [(kMeta ''7'', Meta [5]), (weeklylock (2024, 1, 1), Lock 1704718800000)]"
  by (rule deleteWeekRange_absent) simp_all

lemma scheduled_first_run:
  "scheduled \<lparr>TZ_OFFSET = Some 0, PAY_RATE = None, ADMIN_SECRET = ''s'', build = MondayBuild\<rparr>
      (\<lambda>m. False) 1704708000000 ([(kMeta ''7'', Meta [5])], [])
   = Returned
      ([(kMeta ''7'', Meta [5]), (weeklylock (2024, 1, 1), Lock 1704718800000)],
       [Text 5 (weeklySummary
          \<lparr>TZ_OFFSET = Some 0, PAY_RATE = None, ADMIN_SECRET = ''s'', build = MondayBuild\<rparr>
          1704708000000 1704067200000 1704672000000 ''7''
          [(kMeta ''7'', Meta [5]), (weeklylock (2024, 1, 1), Lock 1704718800000)]),
        Document 5 (2024, 1, 1) (weeklyCsv 1704708000000 1704067200000 1704672000000 ''7''
          [(kMeta ''7'', Meta [5]), (weeklylock (2024, 1, 1), Lock 1704718800000)])])"
  by (simp add: scheduled_def runWeekly_def nowLocal_def tzOffsetHours_def window_2024_01_08
      dateKey_2024_01_01_midnight kvGetAt_def putJSON_def listMeta_def weeklyUser_def
      getChats_def kvGet_def deleteWeekRange_meta_lock Let_def)


lemma deleteWeekRange_meta:
  "deleteWeekRange ''7'' a b [(kMeta ''7'', Meta [5])] = [(kMeta ''7'', Meta [5])]"
  by (rule deleteWeekRange_absent) simp_all

lemma admin_first_run:
  "adminRunWeekly \<lparr>TZ_OFFSET = Some 0, PAY_RATE = None, ADMIN_SECRET = ''s'', build = MondayBuild\<rparr>
      (\<lambda>m. False) 1704708000000 ''s'' ([(kMeta ''7'', Meta [5])], [])
   = (WeeklyOk,
      [(kMeta ''7'', Meta [5])],
      [Text 5 (weeklySummary
          \<lparr>TZ_OFFSET = Some 0, PAY_RATE = None, ADMIN_SECRET = ''s'', build = MondayBuild\<rparr>
          1704708000000 1704067200000 1704672000000 ''7'' [(kMeta ''7'', Meta [5])]),
       Document 5 (2024, 1, 1) (weeklyCsv 1704708000000 1704067200000 1704672000000 ''7''
          [(kMeta ''7'', Meta [5])])])"
  by (simp add: adminRunWeekly_def runWeekly_def nowLocal_def tzOffsetHours_def window_2024_01_08
      dateKey_2024_01_01_midnight listMeta_def weeklyUser_def
      getChats_def kvGet_def deleteWeekRange_meta Let_def)

text \<open>
  Claim C3 on the code.  The store knows one user with one chat.  The cron entry point
  runs the job for the week of 1 January 2024 (Monday build, Monday 8 January 10:00) and
  sends the summary and the file; called again a second later it finds the lock and does
  nothing.  The administrative route, called a second later with the right secret, does
  not look at the lock: it runs the job again and sends both messages a second time, after
  a run of the cron path as well as after a run of its own.
\<close>

theorem admin_trigger_ignores_lock:
  "length (snd (final (scheduled
      \<lparr>TZ_OFFSET = Some 0, PAY_RATE = None, ADMIN_SECRET = ''s'', build = MondayBuild\<rparr>
      (\<lambda>m. False) 1704708000000 ([(kMeta ''7'', Meta [5])], [])))) = 2
   \<and> scheduled
        \<lparr>TZ_OFFSET = Some 0, PAY_RATE = None, ADMIN_SECRET = ''s'', build = MondayBuild\<rparr>
        (\<lambda>m. False) 1704708001000
        (final (scheduled
          \<lparr>TZ_OFFSET = Some 0, PAY_RATE = None, ADMIN_SECRET = ''s'', build = MondayBuild\<rparr>
          (\<lambda>m. False) 1704708000000 ([(kMeta ''7'', Meta [5])], [])))
     = Returned (final (scheduled
          \<lparr>TZ_OFFSET = Some 0, PAY_RATE = None, ADMIN_SECRET = ''s'', build = MondayBuild\<rparr>
          (\<lambda>m. False) 1704708000000 ([(kMeta ''7'', Meta [5])], [])))
   \<and> fst (adminRunWeekly
        \<lparr>TZ_OFFSET = Some 0, PAY_RATE = None, ADMIN_SECRET = ''s'', build = MondayBuild\<rparr>
        (\<lambda>m. False) 1704708001000 ''s''
        (final (scheduled
          \<lparr>TZ_OFFSET = Some 0, PAY_RATE = None, ADMIN_SECRET = ''s'', build = MondayBuild\<rparr>
          (\<lambda>m. False) 1704708000000 ([(kMeta ''7'', Meta [5])], [])))) = WeeklyOk
   \<and> length (snd (snd (adminRunWeekly
        \<lparr>TZ_OFFSET = Some 0, PAY_RATE = None, ADMIN_SECRET = ''s'', build = MondayBuild\<rparr>
        (\<lambda>m. False) 1704708001000 ''s''
        (final (scheduled
          \<lparr>TZ_OFFSET = Some 0, PAY_RATE = None, ADMIN_SECRET = ''s'', build = MondayBuild\<rparr>
          (\<lambda>m. False) 1704708000000 ([(kMeta ''7'', Meta [5])], [])))))) = 4
   \<and> length (snd (snd (adminRunWeekly
        \<lparr>TZ_OFFSET = Some 0, PAY_RATE = None, ADMIN_SECRET = ''s'', build = MondayBuild\<rparr>
        (\<lambda>m. False) 1704708000000 ''s'' ([(kMeta ''7'', Meta [5])], [])))) = 2
   \<and> length (snd (snd (adminRunWeekly
        \<lparr>TZ_OFFSET = Some 0, PAY_RATE = None, ADMIN_SECRET = ''s'', build = MondayBuild\<rparr>
        (\<lambda>m. False) 1704708001000 ''s''
        (snd (adminRunWeekly
          \<lparr>TZ_OFFSET = Some 0, PAY_RATE = None, ADMIN_SECRET = ''s'', build = MondayBuild\<rparr>
          (\<lambda>m. False) 1704708000000 ''s'' ([(kMeta ''7'', Meta [5])], [])))))) = 4"
  unfolding scheduled_first_run admin_first_run
  by (simp add: scheduled_def adminRunWeekly_def runWeekly_def nowLocal_def tzOffsetHours_def
      window_2024_01_08_later dateKey_2024_01_01_midnight kvGetAt_def listMeta_def
      weeklyUser_def getChats_def kvGet_def deleteWeekRange_meta deleteWeekRange_meta_lock Let_def)

section \<open>At most one open session\<close>

lemma getOpenShift_None_iff: "getOpenShift d u = None \<longleftrightarrow> countOpenShifts d u = 0"
  by (simp add: getOpenShift_def countOpenShifts_def split: list.splits)

lemma countOpenShifts_clockIn:
  assumes "clockIn tz d v t = Inr (d', res)"
  shows "countOpenShifts d' u
   = (if u = v \<and> countOpenShifts d v = 0 then 1 else countOpenShifts d u)"
proof (cases "getOpenShift d v")
  case None
  then have z: "countOpenShifts d v = 0" by (simp add: getOpenShift_None_iff)
  from assms None have "d' = startShift d v t (dayKey tz t) (isoMonday tz t)"
    by (simp add: clockIn_def split: if_splits)
  then show ?thesis
    using z by (simp add: startShift_def countOpenShifts_def isOpenFor_def)
next
  case (Some row)
  then have "countOpenShifts d v \<noteq> 0" using getOpenShift_None_iff[of d v] by simp
  moreover from assms Some have "d' = d" by (simp add: clockIn_def)
  ultimately show ?thesis by simp
qed

lemma filter_map_close_le:
  "length (filter (isOpenFor u) (map (\<lambda>r. if shift_id r = i then r\<lparr>end_ts := Some t\<rparr> else r) rs))
   \<le> length (filter (isOpenFor u) rs)"
  by (induction rs) (auto simp: isOpenFor_def)

lemma countOpenShifts_clockOut_le:
  "countOpenShifts (fst (clockOut tz d v t)) u \<le> countOpenShifts d u"
  by (cases "getOpenShift d v")
     (simp_all add: clockOut_def endShift_def countOpenShifts_def filter_map_close_le
        del: filter_map length_filter_map)

lemma closed_not_open: "\<not> isOpenFor u (r\<lparr>end_ts := Some t\<rparr>)"
  by (simp add: isOpenFor_def)

lemma filter_map_close_single:
  assumes "filter (isOpenFor u) rs = [r]"
  shows "filter (isOpenFor u)
           (map (\<lambda>x. if shift_id x = shift_id r then x\<lparr>end_ts := Some t\<rparr> else x) rs) = []"
  using assms
proof (induction rs)
  case Nil
  then show ?case by simp
next
  case (Cons a rs)
  show ?case
  proof (cases "isOpenFor u a")
    case True
    with Cons.prems have a: "a = r" and rest: "filter (isOpenFor u) rs = []" by auto
    from rest have "\<forall>x \<in> set rs. \<not> isOpenFor u x" by (simp add: filter_empty_conv)
    then have "filter (isOpenFor u)
        (map (\<lambda>x. if shift_id x = shift_id r then x\<lparr>end_ts := Some t\<rparr> else x) rs) = []"
      by (auto simp: filter_empty_conv closed_not_open simp del: filter_map length_filter_map)
    with a show ?thesis by (simp add: closed_not_open del: filter_map length_filter_map)
  next
    case False
    with Cons.prems have "filter (isOpenFor u) rs = [r]" by simp
    from Cons.IH[OF this] False show ?thesis by (simp add: closed_not_open del: filter_map length_filter_map)
  qed
qed

lemma countOpenShifts_clockOut_self:
  assumes "countOpenShifts d v \<le> 1"
  shows "countOpenShifts (fst (clockOut tz d v t)) v = 0"
proof (cases "getOpenShift d v")
  case None
  then show ?thesis using getOpenShift_None_iff[of d v] by (simp add: clockOut_def)
next
  case (Some row)
  then have "countOpenShifts d v \<noteq> 0" using getOpenShift_None_iff[of d v] by simp
  with assms have "countOpenShifts d v = 1" by linarith
  then have "length (filter (isOpenFor v) (shifts d)) = 1"
    by (simp only: countOpenShifts_def)
  then obtain r where f: "filter (isOpenFor v) (shifts d) = [r]"
    by (cases "filter (isOpenFor v) (shifts d)") auto
  with Some have "row = r" by (simp add: getOpenShift_def)
  with Some f show ?thesis
    by (simp add: clockOut_def endShift_def countOpenShifts_def filter_map_close_single
        del: filter_map length_filter_map)
qed

text \<open>
  In \<^verbatim>\<open>db.js\<close> the property holds: from a table in which no user has more than one row
  without \<^verbatim>\<open>end_ts\<close>, no sequence of clock-ins and clock-outs leads to a table in which
  some user has more than one.
\<close>

lemma clockings_at_most_one_open:
  assumes "\<And>u. countOpenShifts d u \<le> 1"
  shows "countOpenShifts (clockings tz d cs) u \<le> 1"
  using assms
proof (induction cs arbitrary: d u)
  case Nil
  then show ?case by simp
next
  case (Cons c cs)
  show ?case
  proof (cases c)
    case (ClockIn v t)
    show ?thesis
    proof (cases "clockIn tz d v t")
      case (Inl err)
      with Cons.IH[OF Cons.prems] ClockIn show ?thesis by simp
    next
      case (Inr p)
      obtain d' res where p: "p = (d', res)" by (cases p)
      have "\<And>w. countOpenShifts d' w \<le> 1"
        using Cons.prems by (simp add: countOpenShifts_clockIn[OF Inr[unfolded p]])
      from Cons.IH[OF this] ClockIn Inr p show ?thesis by simp
    qed
  next
    case (ClockOut v t)
    have "\<And>w. countOpenShifts (fst (clockOut tz d v t)) w \<le> 1"
      using Cons.prems countOpenShifts_clockOut_le[of tz d v t] le_trans by blast
    from Cons.IH[OF this] ClockOut show ?thesis by simp
  qed
qed

text \<open>In the worker the open flag is one key, so the flags of a user never count above one.\<close>

lemma countOpenMarkers_le_one: "countOpenMarkers s u \<le> 1"
  by (simp add: countOpenMarkers_def split: option.splits)

lemma dateKeys_trace:
  "dateKeyLocal 1704150000000 = (2024, 1, 1)"
  "dateKeyLocal 1704157200000 = (2024, 1, 2)"
  "dateKeyLocal 1704236400000 = (2024, 1, 2)"
  "dateKeyLocal 1704243600000 = (2024, 1, 3)"
  by code_simp+

lemma trace_step1:
  "fst (cmdIn \<lparr>TZ_OFFSET = Some 0, PAY_RATE = None, ADMIN_SECRET = ''s'', build = SundayBuild\<rparr>
         1704150000000 5 ''7'' [])
   = [(kOpen ''7'', Open 1704150000000),
      (kDay ''7'' (2024, 1, 1), DayRec [\<lparr>inUtcMs = 1704150000000, outUtcMs = None\<rparr>] 0)]"
  by (simp add: cmdIn_def Let_def nowLocal_def tzOffsetHours_def dateKeys_trace openStart_def
      getOpen_def kvGet_def getDayRec_def putJSON_def)

lemma trace_step2:
  "fst (cmdOut \<lparr>TZ_OFFSET = Some 0, PAY_RATE = None, ADMIN_SECRET = ''s'', build = SundayBuild\<rparr>
         1704157200000 5 ''7''
         [(kOpen ''7'', Open 1704150000000),
          (kDay ''7'' (2024, 1, 1), DayRec [\<lparr>inUtcMs = 1704150000000, outUtcMs = None\<rparr>] 0)])
   = [(kDay ''7'' (2024, 1, 1), DayRec [\<lparr>inUtcMs = 1704150000000, outUtcMs = None\<rparr>] 0),
      (kDay ''7'' (2024, 1, 2), DayRec [] 7200000)]"
  by (simp add: cmdOut_def Let_def nowLocal_def tzOffsetHours_def dateKeys_trace openStart_def
      getOpen_def kvGet_def getDayRec_def putJSON_def kvDelete_def closeLastOpen_def)

lemma trace_step3:
  "fst (cmdIn \<lparr>TZ_OFFSET = Some 0, PAY_RATE = None, ADMIN_SECRET = ''s'', build = SundayBuild\<rparr>
         1704236400000 5 ''7''
         [(kDay ''7'' (2024, 1, 1), DayRec [\<lparr>inUtcMs = 1704150000000, outUtcMs = None\<rparr>] 0),
          (kDay ''7'' (2024, 1, 2), DayRec [] 7200000)])
   = [(kDay ''7'' (2024, 1, 1), DayRec [\<lparr>inUtcMs = 1704150000000, outUtcMs = None\<rparr>] 0),
      (kDay ''7'' (2024, 1, 2), DayRec [\<lparr>inUtcMs = 1704236400000, outUtcMs = None\<rparr>] 7200000),
      (kOpen ''7'', Open 1704236400000)]"
  by (simp add: cmdIn_def Let_def nowLocal_def tzOffsetHours_def dateKeys_trace openStart_def
      getOpen_def kvGet_def getDayRec_def putJSON_def)

lemma trace_step4:
  "fst (cmdOut \<lparr>TZ_OFFSET = Some 0, PAY_RATE = None, ADMIN_SECRET = ''s'', build = SundayBuild\<rparr>
         1704243600000 5 ''7''
         [(kDay ''7'' (2024, 1, 1), DayRec [\<lparr>inUtcMs = 1704150000000, outUtcMs = None\<rparr>] 0),
          (kDay ''7'' (2024, 1, 2), DayRec [\<lparr>inUtcMs = 1704236400000, outUtcMs = None\<rparr>] 7200000),
          (kOpen ''7'', Open 1704236400000)])
   = [(kDay ''7'' (2024, 1, 1), DayRec [\<lparr>inUtcMs = 1704150000000, outUtcMs = None\<rparr>] 0),
      (kDay ''7'' (2024, 1, 2), DayRec [\<lparr>inUtcMs = 1704236400000, outUtcMs = None\<rparr>] 7200000),
      (kDay ''7'' (2024, 1, 3), DayRec [] 7200000)]"
  by (simp add: cmdOut_def Let_def nowLocal_def tzOffsetHours_def dateKeys_trace openStart_def
      getOpen_def kvGet_def getDayRec_def putJSON_def kvDelete_def closeLastOpen_def)

text \<open>
  Claim C1 on the code.  In the worker a user clocks in on 1 January 2024 at 23:00,
  out on 2 January at 01:00, in again at 23:00 and out on 3 January at 01:00 (offset 0).
  Each clock-out looks for the unfinished session in the day record of its own day, so
  the sessions filed under the days of the clock-ins never get an end: after the first
  pair one session record without end is left although no open flag is set, and after the
  second pair there are two.
\<close>

theorem sessions_across_midnight_stay_open:
  "fst (cmdOut \<lparr>TZ_OFFSET = Some 0, PAY_RATE = None, ADMIN_SECRET = ''s'', build = SundayBuild\<rparr>
         1704157200000 5 ''7''
      (fst (cmdIn \<lparr>TZ_OFFSET = Some 0, PAY_RATE = None, ADMIN_SECRET = ''s'', build = SundayBuild\<rparr>
         1704150000000 5 ''7'' [])))
    = [(kDay ''7'' (2024, 1, 1), DayRec [\<lparr>inUtcMs = 1704150000000, outUtcMs = None\<rparr>] 0),
       (kDay ''7'' (2024, 1, 2), DayRec [] 7200000)]
   \<and> countOpenMarkers
        [(kDay ''7'' (2024, 1, 1), DayRec [\<lparr>inUtcMs = 1704150000000, outUtcMs = None\<rparr>] 0),
         (kDay ''7'' (2024, 1, 2), DayRec [] 7200000)] ''7'' = 0
   \<and> countOpenSessions
        [(kDay ''7'' (2024, 1, 1), DayRec [\<lparr>inUtcMs = 1704150000000, outUtcMs = None\<rparr>] 0),
         (kDay ''7'' (2024, 1, 2), DayRec [] 7200000)] ''7'' = 1
   \<and> fst (cmdOut \<lparr>TZ_OFFSET = Some 0, PAY_RATE = None, ADMIN_SECRET = ''s'', build = SundayBuild\<rparr>
         1704243600000 5 ''7''
      (fst (cmdIn \<lparr>TZ_OFFSET = Some 0, PAY_RATE = None, ADMIN_SECRET = ''s'', build = SundayBuild\<rparr>
         1704236400000 5 ''7''
         [(kDay ''7'' (2024, 1, 1), DayRec [\<lparr>inUtcMs = 1704150000000, outUtcMs = None\<rparr>] 0),
          (kDay ''7'' (2024, 1, 2), DayRec [] 7200000)])))
    = [(kDay ''7'' (2024, 1, 1), DayRec [\<lparr>inUtcMs = 1704150000000, outUtcMs = None\<rparr>] 0),
       (kDay ''7'' (2024, 1, 2), DayRec [\<lparr>inUtcMs = 1704236400000, outUtcMs = None\<rparr>] 7200000),
       (kDay ''7'' (2024, 1, 3), DayRec [] 7200000)]
   \<and> countOpenMarkers
        [(kDay ''7'' (2024, 1, 1), DayRec [\<lparr>inUtcMs = 1704150000000, outUtcMs = None\<rparr>] 0),
         (kDay ''7'' (2024, 1, 2), DayRec [\<lparr>inUtcMs = 1704236400000, outUtcMs = None\<rparr>] 7200000),
         (kDay ''7'' (2024, 1, 3), DayRec [] 7200000)] ''7'' = 0
   \<and> countOpenSessions
        [(kDay ''7'' (2024, 1, 1), DayRec [\<lparr>inUtcMs = 1704150000000, outUtcMs = None\<rparr>] 0),
         (kDay ''7'' (2024, 1, 2), DayRec [\<lparr>inUtcMs = 1704236400000, outUtcMs = None\<rparr>] 7200000),
         (kDay ''7'' (2024, 1, 3), DayRec [] 7200000)] ''7'' = 2"
  unfolding trace_step1 trace_step2 trace_step3 trace_step4
  by (simp add: countOpenMarkers_def countOpenSessions_def openStart_def getOpen_def kvGet_def)

end
